theory Spec2Isabelle
  imports Main "HOL-Library.Sublist"
begin

section \<open>Task scheduling of security\_monkey: watching, auditing and reporting\<close>

text \<open>
  The module \<^verbatim>\<open>security_monkey/task_scheduler/tasks.py\<close> orchestrates collaborators
  (the account table, monitors, watchers, auditors, the alerter, the Celery task queue,
  the data session and the exception store). Its only behaviour is the sequence of calls
  it makes on them, so the embedding is a trace semantics: every function takes the
  history of calls made so far and returns its outcome together with the extended
  history. An outcome is \<open>Inl e\<close> when the Python function exits with exception \<open>e\<close> and
  \<open>Inr v\<close> when it returns \<open>v\<close>. Effects made before an exception stay in the history,
  as in Python.

  What a collaborator answers is given by an environment: whether a call raises may
  depend on the whole history, so any deterministic behaviour of the collaborators can
  be expressed. Of the log lines only the error line of the batch consumer is modelled,
  the one effect of its abort; the other log lines and \<^verbatim>\<open>time.time()\<close> are left out,
  but where the arguments of a log line read an attribute of \<^verbatim>\<open>monitor.watcher\<close> and the
  monitor has no watcher, the model raises \<^verbatim>\<open>AttributeError\<close> as the code does.
\<close>

subsection \<open>Data model\<close>

text \<open>
  The exceptions the module distinguishes: the three SQLAlchemy classes named in its
  \<^verbatim>\<open>except\<close> clauses (an instance of a subclass counts as an instance of the class),
  the \<^verbatim>\<open>AttributeError\<close> of an attribute read on \<^verbatim>\<open>None\<close>, Celery's \<^verbatim>\<open>Retry\<close>, and
  any other subclass of \<^verbatim>\<open>Exception\<close>.
\<close>

datatype exn =
    OperationalError
  | InvalidRequestError
  | StatementError
  | AttributeError
  | Retry
  | OtherException string

record account =
  name :: string
  type_name :: string
  third_party :: bool
  active :: bool

record watcher =
  index :: string
  get_interval :: int
  i_am_plural :: string
  batched_size :: int
  accounts :: "string list"

datatype auditor = Auditor (au_index: string)

record monitor =
  watcher :: "watcher option"
  auditors :: "auditor list"
  batch_support :: bool

type_synonym item = string
type_synonym report = string

text \<open>A fetch scope is a tuple of strings; an exception map is a dictionary from
  scopes to exceptions, kept in its iteration order.\<close>

type_synonym location = "string list"
type_synonym exception_map = "(location \<times> exn) list"

text \<open>Celery signatures and schedules. \<open>Every n\<close> is a period of \<open>n\<close> seconds;
  \<open>Crontab minute hour day_of_week\<close> is \<^verbatim>\<open>crontab(...)\<close> with its defaults written out.\<close>

datatype task_sig =
    TaskAccountTech string string
  | TaskAudit string string
  | ClearExpiredExceptions

datatype schedule =
    Every int
  | Crontab string string string

text \<open>The calls the module makes on its collaborators, with the arguments it passes.\<close>

datatype event =
    FindModules string
  | Purge
  | QueryAccounts
  | NewReporter string
  | ApplyAsync task_sig
  | AddPeriodicTask schedule task_sig
  | SentryCapture
  | LogError string string string
  | StoreException string exn
  | SessionRemove
  | SessionClose
  | GetMonitors string "string list" bool
  | GetMonitorsAndDependencies string "string list" bool
  | SlurpList string
  | Slurp string
  | WatcherFindChanges string "item list" exception_map
  | Save string
  | FindDeletedBatch string string
  | ReadPreviousItems auditor
  | SetItems auditor "item list"
  | AuditObjects auditor
  | SaveIssues auditor
  | CreateReport auditor
  | EmailReport auditor report
  | SyncIssues "string list" string
  | AlerterReport "monitor list" string
  | Received task_sig nat
  | RetrySent task_sig nat

type_synonym history = "event list"

text \<open>
  The environment. \<open>sentry\<close> and \<open>jirasync\<close> are the two optional module globals.
  \<open>raises h ev\<close> is the exception, if any, with which the collaborator answers the call
  \<open>ev\<close> made after history \<open>h\<close>. The remaining fields are the values the collaborators
  return: the rows of the account table, \<^verbatim>\<open>Reporter(account).all_monitors\<close>,
  \<^verbatim>\<open>get_monitors\<close>, \<^verbatim>\<open>get_monitors_and_dependencies\<close> (registration data, fixed during a
  run), and the answers of watchers and auditors, which may change with the history.
\<close>

record env =
  sentry :: bool
  jirasync :: bool
  raises :: "history \<Rightarrow> event \<Rightarrow> exn option"
  account_table :: "account list"
  all_monitors :: "string \<Rightarrow> monitor list"
  get_monitors :: "string \<Rightarrow> string list \<Rightarrow> bool \<Rightarrow> monitor list"
  get_monitors_and_dependencies :: "string \<Rightarrow> string list \<Rightarrow> bool \<Rightarrow> monitor list"
  slurp_list :: "history \<Rightarrow> watcher \<Rightarrow> item list \<times> exception_map"
  slurp :: "history \<Rightarrow> watcher \<Rightarrow> item list \<times> exception_map"
  done_slurping :: "history \<Rightarrow> watcher \<Rightarrow> bool"
  changed_items :: "history \<Rightarrow> watcher \<Rightarrow> item list"
  read_previous_items :: "history \<Rightarrow> auditor \<Rightarrow> item list"
  create_report :: "history \<Rightarrow> auditor \<Rightarrow> report"

subsection \<open>Outcomes and sequencing\<close>

type_synonym 'a io = "history \<Rightarrow> (exn + 'a) \<times> history"

definition return :: "'a \<Rightarrow> 'a io" where
  "return v h = (Inr v, h)"

definition raise :: "exn \<Rightarrow> 'a io" where
  "raise e h = (Inl e, h)"

text \<open>A call that is taken not to fail: the exception store (it catches its own
  errors), the data session, Sentry, the error log and module discovery.\<close>

definition emit :: "event \<Rightarrow> unit io" where
  "emit ev h = (Inr (), h @ [ev])"

text \<open>A call on a collaborator that may raise; \<open>v\<close> is the value it returns otherwise.\<close>

definition call :: "env \<Rightarrow> event \<Rightarrow> 'a \<Rightarrow> 'a io" where
  "call env ev v h =
     (case raises env h ev of
        Some e \<Rightarrow> (Inl e, h @ [ev])
      | None \<Rightarrow> (Inr v, h @ [ev]))"

definition bind :: "'a io \<Rightarrow> ('a \<Rightarrow> 'b io) \<Rightarrow> 'b io" where
  "bind m f h =
     (case m h of
        (Inl e, h') \<Rightarrow> (Inl e, h')
      | (Inr v, h') \<Rightarrow> f v h')"

text \<open>\<^verbatim>\<open>try: m except <classes>: handler\<close>, the classes given as a predicate.\<close>

definition try_except :: "'a io \<Rightarrow> (exn \<Rightarrow> bool) \<Rightarrow> (exn \<Rightarrow> 'a io) \<Rightarrow> 'a io" where
  "try_except m caught handler h =
     (case m h of
        (Inl e, h') \<Rightarrow> if caught e then handler e h' else (Inl e, h')
      | (Inr v, h') \<Rightarrow> (Inr v, h'))"

text \<open>\<^verbatim>\<open>except (OperationalError, InvalidRequestError, StatementError)\<close>\<close>

definition db_error :: "exn \<Rightarrow> bool" where
  "db_error e = (e = OperationalError \<or> e = InvalidRequestError \<or> e = StatementError)"

text \<open>\<^verbatim>\<open>except Exception\<close>: every exception of the model is one.\<close>

definition any_exception :: "exn \<Rightarrow> bool" where
  "any_exception e = True"

text \<open>\<^verbatim>\<open>store_exception(source, None, e)\<close>, \<^verbatim>\<open>db.session.remove()\<close>,
  \<^verbatim>\<open>db.session.close()\<close> and \<^verbatim>\<open>if sentry: sentry.captureException()\<close>.\<close>

definition store_exception :: "string \<Rightarrow> exn \<Rightarrow> unit io" where
  "store_exception source e = emit (StoreException source e)"

definition session_remove :: "unit io" where
  "session_remove = emit SessionRemove"

definition session_close :: "unit io" where
  "session_close = emit SessionClose"

definition capture :: "env \<Rightarrow> unit io" where
  "capture env = (if sentry env then emit SentryCapture else return ())"

subsection \<open>The audit orchestrator\<close>

text \<open>The body of the loop \<^verbatim>\<open>for au in auditors\<close> of \<^verbatim>\<open>_audit_changes\<close>.\<close>

definition audit_one :: "env \<Rightarrow> string \<Rightarrow> bool \<Rightarrow> auditor \<Rightarrow> unit io" where
  "audit_one env account send_report au =
     bind (\<lambda>h. call env (ReadPreviousItems au) (read_previous_items env h au) h) (\<lambda>items.
     bind (emit (SetItems au items)) (\<lambda>_.
     bind (call env (AuditObjects au) ()) (\<lambda>_.
     bind (call env (SaveIssues au) ()) (\<lambda>_.
     bind (if send_report
           then bind (\<lambda>h. call env (CreateReport au) (create_report env h au) h) (\<lambda>report.
                call env (EmailReport au report) ())
           else return ()) (\<lambda>_.
     if jirasync env
     then call env (SyncIssues [account] (au_index au)) ()
     else return ())))))"

fun audit_loop :: "env \<Rightarrow> string \<Rightarrow> bool \<Rightarrow> auditor list \<Rightarrow> unit io" where
  "audit_loop env account send_report [] = return ()"
| "audit_loop env account send_report (au # aus) =
     bind (audit_one env account send_report au) (\<lambda>_.
     audit_loop env account send_report aus)"

text \<open>\<^verbatim>\<open>_audit_changes(account, auditors, send_report, debug)\<close>\<close>

definition priv_audit_changes :: "env \<Rightarrow> string \<Rightarrow> auditor list \<Rightarrow> bool \<Rightarrow> bool \<Rightarrow> unit io" where
  "priv_audit_changes env account aus send_report debug =
     try_except (audit_loop env account send_report aus) db_error (\<lambda>e.
       bind session_remove (\<lambda>_.
       store_exception ''scheduler-audit-changes'' e))"

text \<open>The body of the loop \<^verbatim>\<open>for au in monitor.auditors\<close> of
  \<^verbatim>\<open>_audit_specific_changes\<close>. The issue-tracker sync gets \<^verbatim>\<open>monitor.watcher.accounts\<close>;
  a monitor without watcher raises \<^verbatim>\<open>AttributeError\<close> there.\<close>

definition audit_specific_one :: "env \<Rightarrow> monitor \<Rightarrow> item list \<Rightarrow> bool \<Rightarrow> auditor \<Rightarrow> unit io" where
  "audit_specific_one env mon audit_items send_report au =
     bind (emit (SetItems au audit_items)) (\<lambda>_.
     bind (call env (AuditObjects au) ()) (\<lambda>_.
     bind (call env (SaveIssues au) ()) (\<lambda>_.
     bind (if send_report
           then bind (\<lambda>h. call env (CreateReport au) (create_report env h au) h) (\<lambda>report.
                call env (EmailReport au report) ())
           else return ()) (\<lambda>_.
     if jirasync env
     then (case watcher mon of
             None \<Rightarrow> raise AttributeError
           | Some w \<Rightarrow>
               (case accounts w of
                  [] \<Rightarrow> raise (OtherException ''IndexError'')
                | _ # _ \<Rightarrow> call env (SyncIssues (accounts w) (au_index au)) ()))
     else return ()))))"

fun audit_specific_loop :: "env \<Rightarrow> monitor \<Rightarrow> item list \<Rightarrow> bool \<Rightarrow> auditor list \<Rightarrow> unit io" where
  "audit_specific_loop env mon audit_items send_report [] = return ()"
| "audit_specific_loop env mon audit_items send_report (au # aus) =
     bind (audit_specific_one env mon audit_items send_report au) (\<lambda>_.
     audit_specific_loop env mon audit_items send_report aus)"

text \<open>\<^verbatim>\<open>_audit_specific_changes(monitor, audit_items, send_report, debug)\<close>. The handler
  formats its log line with \<^verbatim>\<open>monitor.watcher.accounts[0]\<close> before it resets the session.\<close>

definition priv_audit_specific_changes ::
    "env \<Rightarrow> monitor \<Rightarrow> item list \<Rightarrow> bool \<Rightarrow> bool \<Rightarrow> unit io" where
  "priv_audit_specific_changes env mon audit_items send_report debug =
     try_except (audit_specific_loop env mon audit_items send_report (auditors mon)) db_error
       (\<lambda>e.
          (case watcher mon of
             None \<Rightarrow> raise AttributeError
           | Some w \<Rightarrow>
               (case accounts w of
                  [] \<Rightarrow> raise (OtherException ''IndexError'')
                | _ # _ \<Rightarrow>
                    bind session_remove (\<lambda>_.
                    store_exception ''scheduler-audit-changes'' e))))"

text \<open>\<^verbatim>\<open>audit_changes(accounts, monitor_names, send_report, debug, skip_batch)\<close>: the loop
  over the resolved monitors of one account, then the loop over accounts. The debug line
  before each audit reads \<^verbatim>\<open>monitor.watcher.index\<close>.\<close>

fun audit_monitors :: "env \<Rightarrow> string \<Rightarrow> bool \<Rightarrow> bool \<Rightarrow> bool \<Rightarrow> monitor list \<Rightarrow> unit io" where
  "audit_monitors env account send_report debug skip_batch [] = return ()"
| "audit_monitors env account send_report debug skip_batch (mon # mons) =
     (if batch_support mon \<and> skip_batch
      then audit_monitors env account send_report debug skip_batch mons
      else
        bind (case watcher mon of
                None \<Rightarrow> raise AttributeError
              | Some w \<Rightarrow> priv_audit_changes env account (auditors mon) send_report debug) (\<lambda>_.
        audit_monitors env account send_report debug skip_batch mons))"

fun audit_changes :: "env \<Rightarrow> string list \<Rightarrow> string list \<Rightarrow> bool \<Rightarrow> bool \<Rightarrow> bool \<Rightarrow> unit io" where
  "audit_changes env [] monitor_names send_report debug skip_batch = return ()"
| "audit_changes env (account # rest) monitor_names send_report debug skip_batch =
     bind (call env (GetMonitorsAndDependencies account monitor_names debug)
             (get_monitors_and_dependencies env account monitor_names debug)) (\<lambda>monitors.
     bind (audit_monitors env account send_report debug skip_batch monitors) (\<lambda>_.
     audit_changes env rest monitor_names send_report debug skip_batch))"


subsection \<open>Functions that may not return\<close>

text \<open>The batch consumer has a \<^verbatim>\<open>while\<close> loop that ends only when the watcher says it
  is done. It and its callers return \<open>None\<close> when the Python function does not return.\<close>

type_synonym 'a pio = "history \<Rightarrow> ((exn + 'a) \<times> history) option"

definition lift :: "'a io \<Rightarrow> 'a pio" where
  "lift m h = Some (m h)"

definition bind_p :: "'a pio \<Rightarrow> ('a \<Rightarrow> 'b pio) \<Rightarrow> 'b pio" where
  "bind_p m f h =
     (case m h of
        None \<Rightarrow> None
      | Some (Inl e, h') \<Rightarrow> Some (Inl e, h')
      | Some (Inr v, h') \<Rightarrow> f v h')"

definition try_except_p :: "'a pio \<Rightarrow> (exn \<Rightarrow> bool) \<Rightarrow> (exn \<Rightarrow> 'a pio) \<Rightarrow> 'a pio" where
  "try_except_p m caught handler h =
     (case m h of
        None \<Rightarrow> None
      | Some (Inl e, h') \<Rightarrow> if caught e then handler e h' else Some (Inl e, h')
      | Some (Inr v, h') \<Rightarrow> Some (Inr v, h'))"

subsection \<open>The batch consumer\<close>

text \<open>The body of the \<^verbatim>\<open>while\<close> loop of \<^verbatim>\<open>batch_logic\<close>: fetch a page, detect changes,
  audit the items of that page.\<close>

definition page :: "env \<Rightarrow> monitor \<Rightarrow> watcher \<Rightarrow> bool \<Rightarrow> unit io" where
  "page env mon cw debug =
     bind (\<lambda>h. call env (Slurp (index cw)) (slurp env h cw) h) (\<lambda>(items, exception_map).
     bind (\<lambda>h. call env (WatcherFindChanges (index cw) items exception_map)
                  (changed_items env h cw) h) (\<lambda>audit_items.
     priv_audit_specific_changes env mon audit_items False debug))"

text \<open>\<^verbatim>\<open>while not current_watcher.done_slurping: ...\<close>\<close>

partial_function (option) paging ::
    "env \<Rightarrow> monitor \<Rightarrow> watcher \<Rightarrow> bool \<Rightarrow> history \<Rightarrow> ((exn + unit) \<times> history) option" where
  "paging env mon cw debug h =
     (if done_slurping env h cw then Some (Inr (), h)
      else (case page env mon cw debug h of
              (Inl e, h') \<Rightarrow> Some (Inl e, h')
            | (Inr _, h') \<Rightarrow> paging env mon cw debug h'))"

declare paging.simps [code]

text \<open>\<^verbatim>\<open>batch_logic(monitor, current_watcher, account_name, debug)\<close>. The first key of
  the exception map is \<^verbatim>\<open>exception_map.keys()[0]\<close> (the module is Python 2, where
  \<^verbatim>\<open>keys()\<close> is a list); its third component, when it has one, is the region named in
  the error log.\<close>

definition batch_logic :: "env \<Rightarrow> monitor \<Rightarrow> watcher \<Rightarrow> string \<Rightarrow> bool \<Rightarrow> unit pio" where
  "batch_logic env mon cw account_name debug =
     bind_p (lift (\<lambda>h. call env (SlurpList (index cw)) (slurp_list env h cw) h))
       (\<lambda>(_, exception_map).
     if length exception_map > 0
     then (let location = fst (hd exception_map);
               region = (if length location > 2 then location ! 2 else ''unknown'')
           in lift (emit (LogError (i_am_plural cw) account_name region)))
     else
       bind_p (paging env mon cw debug) (\<lambda>_.
       lift (call env (FindDeletedBatch (index cw) account_name) ())))"

subsection \<open>The change finder\<close>

text \<open>The body of the loop \<^verbatim>\<open>for mon in monitors\<close> of \<^verbatim>\<open>find_changes\<close>. Its log line
  reads \<^verbatim>\<open>cw.index\<close>, an \<^verbatim>\<open>AttributeError\<close> when the monitor has no watcher.\<close>

definition watch_one :: "env \<Rightarrow> string \<Rightarrow> bool \<Rightarrow> monitor \<Rightarrow> unit pio" where
  "watch_one env account_name debug mon =
     (case watcher mon of
        None \<Rightarrow> lift (raise AttributeError)
      | Some cw \<Rightarrow>
          if batch_support mon
          then batch_logic env mon cw account_name debug
          else lift
            (bind (\<lambda>h. call env (Slurp (index cw)) (slurp env h cw) h) (\<lambda>(items, exception_map).
             bind (\<lambda>h. call env (WatcherFindChanges (index cw) items exception_map)
                          (changed_items env h cw) h) (\<lambda>_.
             call env (Save (index cw)) ()))))"

fun watch_loop :: "env \<Rightarrow> string \<Rightarrow> bool \<Rightarrow> monitor list \<Rightarrow> unit pio" where
  "watch_loop env account_name debug [] = lift (return ())"
| "watch_loop env account_name debug (mon # mons) =
     bind_p (watch_one env account_name debug mon) (\<lambda>_.
     watch_loop env account_name debug mons)"

text \<open>\<^verbatim>\<open>find_changes(account_name, monitor_name, debug)\<close>. The sweep is called with four
  arguments, so \<^verbatim>\<open>skip_batch\<close> has its default \<^verbatim>\<open>True\<close>.\<close>

definition find_changes :: "env \<Rightarrow> string \<Rightarrow> string \<Rightarrow> bool \<Rightarrow> monitor list pio" where
  "find_changes env account_name monitor_name debug =
     bind_p (lift (call env (GetMonitors account_name [monitor_name] debug)
                     (get_monitors env account_name [monitor_name] debug))) (\<lambda>monitors.
     bind_p (watch_loop env account_name debug monitors) (\<lambda>_.
     bind_p (lift (audit_changes env [account_name] [monitor_name] False debug True)) (\<lambda>_.
     bind_p (lift session_close) (\<lambda>_.
     lift (return monitors)))))"

text \<open>\<^verbatim>\<open>reporter_logic(account_name, technology_name)\<close>: the body of its \<^verbatim>\<open>try\<close>
  (watch and audit, then alert), and the function.\<close>

definition watch_and_alert :: "env \<Rightarrow> string \<Rightarrow> string \<Rightarrow> unit pio" where
  "watch_and_alert env account_name technology_name =
     bind_p (find_changes env account_name technology_name True) (\<lambda>monitors.
     lift (call env (AlerterReport monitors account_name) ()))"

definition reporter_logic :: "env \<Rightarrow> string \<Rightarrow> string \<Rightarrow> unit pio" where
  "reporter_logic env account_name technology_name =
     try_except_p (watch_and_alert env account_name technology_name)
       db_error
       (\<lambda>e. lift (bind session_remove (\<lambda>_.
                  bind (store_exception ''scheduler-task-account-tech'' e) (\<lambda>_.
                  raise e))))"

subsection \<open>The task executors\<close>

text \<open>\<^verbatim>\<open>setup()\<close>: the three calls of \<^verbatim>\<open>find_modules\<close>, which load installed
  modules and are taken not to fail.\<close>

definition setup_modules :: "env \<Rightarrow> unit io" where
  "setup_modules env =
     bind (emit (FindModules ''alerters'')) (\<lambda>_.
     bind (emit (FindModules ''watchers'')) (\<lambda>_.
     emit (FindModules ''auditors'')))"

text \<open>
  Celery's \<^verbatim>\<open>Task.retry(exc=e)\<close>, as the library documents and implements it, for a task
  declared with \<^verbatim>\<open>max_retries=3\<close> and running with \<^verbatim>\<open>self.request.retries = retries\<close>:
  when \<open>retries + 1\<close> exceeds \<^verbatim>\<open>max_retries\<close> it raises \<open>e\<close>; otherwise it sends the task
  again with the counter \<open>retries + 1\<close> and raises \<^verbatim>\<open>Retry\<close> (its \<^verbatim>\<open>throw\<close> argument is
  \<^verbatim>\<open>True\<close> by default). It never returns, so \<^verbatim>\<open>raise self.retry(exc=e)\<close> and a bare
  \<^verbatim>\<open>self.retry(exc=e)\<close> behave alike.
\<close>

definition max_retries :: nat where
  "max_retries = 3"

definition retry :: "task_sig \<Rightarrow> nat \<Rightarrow> exn \<Rightarrow> unit io" where
  "retry sig retries exc =
     (if retries + 1 > max_retries then raise exc
      else bind (emit (RetrySent sig (retries + 1))) (\<lambda>_. raise Retry))"

text \<open>\<^verbatim>\<open>task_account_tech(self, account_name, technology_name)\<close>\<close>

definition task_account_tech :: "env \<Rightarrow> nat \<Rightarrow> string \<Rightarrow> string \<Rightarrow> unit pio" where
  "task_account_tech env retries account_name technology_name =
     bind_p (lift (setup_modules env)) (\<lambda>_.
     try_except_p (reporter_logic env account_name technology_name) any_exception
       (\<lambda>e. lift (bind (capture env) (\<lambda>_.
                  bind (store_exception ''scheduler-exception-on-watch'' e) (\<lambda>_.
                  retry (TaskAccountTech account_name technology_name) retries e)))))"

text \<open>\<^verbatim>\<open>task_audit(self, account_name, technology_name)\<close>\<close>

definition task_audit :: "env \<Rightarrow> nat \<Rightarrow> string \<Rightarrow> string \<Rightarrow> unit io" where
  "task_audit env retries account_name technology_name =
     bind (setup_modules env) (\<lambda>_.
     try_except (audit_changes env [account_name] [technology_name] True True True)
       any_exception
       (\<lambda>e. bind (capture env) (\<lambda>_.
            bind (store_exception ''scheduler-exception-on-audit'' e) (\<lambda>_.
            retry (TaskAudit account_name technology_name) retries e))))"

text \<open>
  The worker. It receives a task message with its retry counter, runs the task, and
  runs it again with the next counter when the run ended by sending the retry message.
\<close>

partial_function (option) deliver_account_tech ::
    "env \<Rightarrow> string \<Rightarrow> string \<Rightarrow> nat \<Rightarrow> history \<Rightarrow> ((exn + unit) \<times> history) option" where
  "deliver_account_tech env account_name technology_name retries h =
     (case task_account_tech env retries account_name technology_name
             (h @ [Received (TaskAccountTech account_name technology_name) retries]) of
        None \<Rightarrow> None
      | Some (r, h') \<Rightarrow>
          if last h' = RetrySent (TaskAccountTech account_name technology_name) (retries + 1)
          then deliver_account_tech env account_name technology_name (retries + 1) h'
          else Some (r, h'))"

declare deliver_account_tech.simps [code]

partial_function (option) deliver_audit ::
    "env \<Rightarrow> string \<Rightarrow> string \<Rightarrow> nat \<Rightarrow> history \<Rightarrow> ((exn + unit) \<times> history) option" where
  "deliver_audit env account_name technology_name retries h =
     (case task_audit env retries account_name technology_name
             (h @ [Received (TaskAudit account_name technology_name) retries]) of
        (r, h') \<Rightarrow>
          if last h' = RetrySent (TaskAudit account_name technology_name) (retries + 1)
          then deliver_audit env account_name technology_name (retries + 1) h'
          else Some (r, h'))"

declare deliver_audit.simps [code]

subsection \<open>The scheduler bootstrapper\<close>

definition purge_it :: "env \<Rightarrow> unit io" where
  "purge_it env = call env Purge ()"

text \<open>The body of the loop \<^verbatim>\<open>for monitor in rep.all_monitors\<close>.\<close>

definition schedule_monitor :: "env \<Rightarrow> account \<Rightarrow> monitor \<Rightarrow> unit io" where
  "schedule_monitor env acct mon =
     (case watcher mon of
        None \<Rightarrow> return ()
      | Some w \<Rightarrow>
          (let interval = get_interval w * 60 in
           bind (call env (ApplyAsync (TaskAccountTech (name acct) (index w))) ()) (\<lambda>_.
           bind (call env (AddPeriodicTask (Every interval)
                             (TaskAccountTech (name acct) (index w))) ()) (\<lambda>_.
           if \<not> batch_support mon
           then call env (AddPeriodicTask (Crontab ''*'' ''10'' ''mon-fri'')
                            (TaskAudit (name acct) (index w))) ()
           else return ()))))"

fun schedule_monitors :: "env \<Rightarrow> account \<Rightarrow> monitor list \<Rightarrow> unit io" where
  "schedule_monitors env acct [] = return ()"
| "schedule_monitors env acct (mon # mons) =
     bind (schedule_monitor env acct mon) (\<lambda>_.
     schedule_monitors env acct mons)"

text \<open>The loop \<^verbatim>\<open>for account in accounts\<close>.\<close>

fun schedule_accounts :: "env \<Rightarrow> account list \<Rightarrow> unit io" where
  "schedule_accounts env [] = return ()"
| "schedule_accounts env (acct # accts) =
     bind (call env (NewReporter (name acct)) (all_monitors env (name acct))) (\<lambda>monitors.
     bind (schedule_monitors env acct monitors) (\<lambda>_.
     schedule_accounts env accts))"

text \<open>The rows that
  \<^verbatim>\<open>Account.query.filter(Account.third_party == False).filter(Account.active == True)\<close>
  selects.\<close>

definition scheduled_accounts :: "env \<Rightarrow> account list" where
  "scheduled_accounts env =
     filter (\<lambda>a. active a = True) (filter (\<lambda>a. third_party a = False) (account_table env))"

text \<open>\<^verbatim>\<open>setup_the_tasks(sender)\<close>: the body of its \<^verbatim>\<open>try\<close>, and the function.\<close>

definition register_all :: "env \<Rightarrow> unit io" where
  "register_all env =
     bind (call env QueryAccounts (scheduled_accounts env)) (\<lambda>accts.
     bind (schedule_accounts env accts) (\<lambda>_.
     call env (AddPeriodicTask (Crontab ''0'' ''3'' ''*'') ClearExpiredExceptions) ()))"

definition setup_the_tasks :: "env \<Rightarrow> unit io" where
  "setup_the_tasks env =
     bind (setup_modules env) (\<lambda>_.
     bind (purge_it env) (\<lambda>_.
     try_except (register_all env) any_exception
       (\<lambda>e. bind (capture env) (\<lambda>_.
            store_exception ''scheduler'' e))))"

subsection \<open>Observations on a history\<close>

text \<open>The exception records stored, as pairs of source tag and exception, in order.\<close>

fun exception_record :: "event \<Rightarrow> (string \<times> exn) list" where
  "exception_record (StoreException source e) = [(source, e)]"
| "exception_record _ = []"

definition exception_records :: "history \<Rightarrow> (string \<times> exn) list" where
  "exception_records h = concat (map exception_record h)"


text \<open>The runs of a task that the worker started, whatever their retry counter, and
  their number at the end of a delivery.\<close>

fun is_received :: "task_sig \<Rightarrow> event \<Rightarrow> bool" where
  "is_received sig (Received s k) = (s = sig)"
| "is_received sig _ = False"

definition executions :: "task_sig \<Rightarrow> history \<Rightarrow> nat" where
  "executions sig h = length (filter (is_received sig) h)"

definition attempts_made :: "task_sig \<Rightarrow> ((exn + unit) \<times> history) option \<Rightarrow> nat option" where
  "attempts_made sig outcome = map_option (executions sig \<circ> snd) outcome"

text \<open>The registrations made with the task queue for one pair of account and
  technology: immediate or periodic, of either task.\<close>

fun registration_for :: "string \<Rightarrow> string \<Rightarrow> event \<Rightarrow> bool" where
  "registration_for a t (ApplyAsync sig) = (sig = TaskAccountTech a t \<or> sig = TaskAudit a t)"
| "registration_for a t (AddPeriodicTask s sig) =
     (sig = TaskAccountTech a t \<or> sig = TaskAudit a t)"
| "registration_for a t _ = False"


subsection \<open>Classes of events\<close>

text \<open>\<open>emits P m\<close>: whatever the outcome, \<open>m\<close> extends the history, and only by events
  that satisfy \<open>P\<close>. \<open>emits_p\<close> is the same for a function that may not return.\<close>

definition emits :: "(event \<Rightarrow> bool) \<Rightarrow> 'a io \<Rightarrow> bool" where
  "emits P m \<longleftrightarrow> (\<forall>h. \<exists>new. snd (m h) = h @ new \<and> list_all P new)"

definition emits_p :: "(event \<Rightarrow> bool) \<Rightarrow> 'a pio \<Rightarrow> bool" where
  "emits_p P m \<longleftrightarrow>
     (\<forall>h r h'. m h = Some (r, h') \<longrightarrow> (\<exists>new. h' = h @ new \<and> list_all P new))"

text \<open>The calls on an auditor other than reading its previous items; the recovery from
  a storage fault; the events of one page of the batch consumer; those of the watch
  phase of the change finder.\<close>

fun auditor_call :: "event \<Rightarrow> bool" where
  "auditor_call (SetItems _ _) = True"
| "auditor_call (AuditObjects _) = True"
| "auditor_call (SaveIssues _) = True"
| "auditor_call (CreateReport _) = True"
| "auditor_call (EmailReport _ _) = True"
| "auditor_call (SyncIssues _ _) = True"
| "auditor_call _ = False"

fun recovery :: "event \<Rightarrow> bool" where
  "recovery SessionRemove = True"
| "recovery (StoreException _ _) = True"
| "recovery _ = False"

fun page_event :: "event \<Rightarrow> bool" where
  "page_event (Slurp _) = True"
| "page_event (WatcherFindChanges _ _ _) = True"
| "page_event ev = (auditor_call ev \<or> recovery ev)"

fun watch_event :: "event \<Rightarrow> bool" where
  "watch_event (SlurpList _) = True"
| "watch_event (LogError _ _ _) = True"
| "watch_event (FindDeletedBatch _ _) = True"
| "watch_event (Save _) = True"
| "watch_event ev = page_event ev"

text \<open>The events of a sweep over the monitors \<open>mons\<close> that skips the batch-supporting
  ones, and the events of the change finder.\<close>

definition sweep_event :: "monitor list \<Rightarrow> event \<Rightarrow> bool" where
  "sweep_event mons ev \<longleftrightarrow>
     auditor_call ev \<or> recovery ev \<or>
     (\<exists>m \<in> set mons. \<not> batch_support m \<and> (\<exists>au \<in> set (auditors m). ev = ReadPreviousItems au))"

definition finder_event :: "env \<Rightarrow> string \<Rightarrow> string \<Rightarrow> bool \<Rightarrow> event \<Rightarrow> bool" where
  "finder_event env account_name monitor_name debug ev \<longleftrightarrow>
     ev = GetMonitors account_name [monitor_name] debug \<or>
     watch_event ev \<or>
     ev = GetMonitorsAndDependencies account_name [monitor_name] debug \<or>
     sweep_event (get_monitors_and_dependencies env account_name [monitor_name] debug) ev \<or>
     ev = SessionClose"

text \<open>The events of one run of a task with retry counter \<open>k\<close>: nothing of the worker,
  and the retry message only with the next counter and while \<open>k < 3\<close>.\<close>

fun attempt_event :: "task_sig \<Rightarrow> nat \<Rightarrow> event \<Rightarrow> bool" where
  "attempt_event sig k (Received _ _) = False"
| "attempt_event sig k (RetrySent s n) = (s = sig \<and> n = k + 1 \<and> k < 3)"
| "attempt_event sig k _ = True"

text \<open>The registrations the bootstrapper makes for one monitor and for one account when
  no call raises.\<close>

definition monitor_tasks :: "account \<Rightarrow> monitor \<Rightarrow> event list" where
  "monitor_tasks acct mon =
     (case watcher mon of
        None \<Rightarrow> []
      | Some w \<Rightarrow>
          [ApplyAsync (TaskAccountTech (name acct) (index w)),
           AddPeriodicTask (Every (get_interval w * 60)) (TaskAccountTech (name acct) (index w))] @
          (if batch_support mon then []
           else [AddPeriodicTask (Crontab ''*'' ''10'' ''mon-fri'')
                   (TaskAudit (name acct) (index w))]))"

definition account_tasks :: "env \<Rightarrow> account \<Rightarrow> event list" where
  "account_tasks env acct =
     NewReporter (name acct) # concat (map (monitor_tasks acct) (all_monitors env (name acct)))"

subsection \<open>A scenario\<close>

text \<open>Account \<open>prod\<close> with the technologies \<open>iamrole\<close> (a snapshot, every 15 minutes)
  and \<open>s3\<close> (paged); the auditor of \<open>iamrole\<close> depends on \<open>s3\<close>. A second account is a
  third party. Nothing raises, and the \<open>s3\<close> watcher is done after two pages.\<close>

definition iamrole_watcher :: watcher where
  "iamrole_watcher = \<lparr>index = ''iamrole'', get_interval = 15, i_am_plural = ''iamroles'',
     batched_size = 0, accounts = [''prod'']\<rparr>"

definition s3_watcher :: watcher where
  "s3_watcher = \<lparr>index = ''s3'', get_interval = 15, i_am_plural = ''s3'',
     batched_size = 50, accounts = [''prod'']\<rparr>"

definition iamrole_monitor :: monitor where
  "iamrole_monitor = \<lparr>watcher = Some iamrole_watcher, auditors = [Auditor ''iamrole''],
     batch_support = False\<rparr>"

definition s3_monitor :: monitor where
  "s3_monitor = \<lparr>watcher = Some s3_watcher, auditors = [Auditor ''s3''],
     batch_support = True\<rparr>"

definition prod_account :: account where
  "prod_account = \<lparr>name = ''prod'', type_name = ''AWS'', third_party = False, active = True\<rparr>"

definition vendor_account :: account where
  "vendor_account = \<lparr>name = ''vendor'', type_name = ''AWS'', third_party = True, active = True\<rparr>"

fun is_slurp :: "event \<Rightarrow> bool" where
  "is_slurp (Slurp _) = True"
| "is_slurp _ = False"

definition prod_env :: env where
  "prod_env = \<lparr>sentry = False, jirasync = False,
     raises = (\<lambda>h ev. None),
     account_table = [prod_account, vendor_account],
     all_monitors = (\<lambda>a. [iamrole_monitor, s3_monitor]),
     get_monitors = (\<lambda>a names debug.
       if names = [''s3''] then [s3_monitor] else [iamrole_monitor]),
     get_monitors_and_dependencies = (\<lambda>a names debug.
       if names = [''s3''] then [s3_monitor, iamrole_monitor] else [iamrole_monitor]),
     slurp_list = (\<lambda>h w. ([], [])),
     slurp = (\<lambda>h w. ([''item''], [])),
     done_slurping = (\<lambda>h w. 2 \<le> length (filter is_slurp h)),
     changed_items = (\<lambda>h w. [''item'']),
     read_previous_items = (\<lambda>h au. [''item'']),
     create_report = (\<lambda>h au. ''report'')\<rparr>"

text \<open>Variants of the scenario: every scope fails in the first fetch of \<open>s3\<close>; every
  page fetch raises a storage fault; the auditor's \<^verbatim>\<open>save_issues\<close> raises one; the
  resolution of monitors and dependencies raises an error that is not a storage fault.\<close>

definition fetch_failure_env :: env where
  "fetch_failure_env = prod_env\<lparr>slurp_list :=
     (\<lambda>h w. ([], [([''s3'', ''prod'', ''us-east-1''], OtherException ''AccessDenied'')]))\<rparr>"

fun slurp_fault :: "history \<Rightarrow> event \<Rightarrow> exn option" where
  "slurp_fault h (Slurp _) = Some OperationalError"
| "slurp_fault h _ = None"

definition slurp_fault_env :: env where
  "slurp_fault_env = prod_env\<lparr>raises := slurp_fault\<rparr>"

fun save_fault :: "history \<Rightarrow> event \<Rightarrow> exn option" where
  "save_fault h (SaveIssues _) = Some OperationalError"
| "save_fault h _ = None"

definition save_fault_env :: env where
  "save_fault_env = prod_env\<lparr>raises := save_fault\<rparr>"

fun resolver_fault :: "history \<Rightarrow> event \<Rightarrow> exn option" where
  "resolver_fault h (GetMonitorsAndDependencies _ _ _) = Some (OtherException ''KeyError'')"
| "resolver_fault h _ = None"

definition resolver_fault_env :: env where
  "resolver_fault_env = prod_env\<lparr>raises := resolver_fault\<rparr>"

section \<open>Proofs\<close>

subsection \<open>Sequencing and event classes\<close>

lemmas io_defs = return_def raise_def emit_def call_def bind_def try_except_def db_error_def
  any_exception_def store_exception_def session_remove_def session_close_def capture_def
  lift_def bind_p_def try_except_p_def

lemmas scenario_defs = prod_env_def iamrole_watcher_def s3_watcher_def
  iamrole_monitor_def s3_monitor_def prod_account_def vendor_account_def

lemmas fetch_failure_defs = fetch_failure_env_def scenario_defs

lemmas slurp_fault_defs = slurp_fault_env_def scenario_defs

lemmas save_fault_defs = save_fault_env_def scenario_defs

lemmas resolver_fault_defs = resolver_fault_env_def scenario_defs

lemma emitsI: "(\<And>h. \<exists>new. snd (m h) = h @ new \<and> list_all P new) \<Longrightarrow> emits P m"
  by (simp add: emits_def)

lemma emitsD: "emits P m \<Longrightarrow> m h = (r, h') \<Longrightarrow> \<exists>new. h' = h @ new \<and> list_all P new"
  unfolding emits_def by (metis snd_conv)

lemma emits_return: "emits P (return v)"
  by (simp add: emits_def return_def)

lemma emits_raise: "emits P (raise e)"
  by (simp add: emits_def raise_def)

lemma emits_emit: "P ev \<Longrightarrow> emits P (emit ev)"
  by (simp add: emits_def emit_def)

lemma emits_call: "P ev \<Longrightarrow> emits P (call env ev v)"
  by (simp add: emits_def call_def split: option.split)

lemma emits_call_h: "P ev \<Longrightarrow> emits P (\<lambda>h. call env ev (f h) h)"
  by (simp add: emits_def call_def split: option.split)

lemma emits_bind: "emits P m \<Longrightarrow> (\<And>v. emits P (f v)) \<Longrightarrow> emits P (bind m f)"
proof (rule emitsI)
  fix h
  assume m: "emits P m" and f: "\<And>v. emits P (f v)"
  obtain r h1 where r: "m h = (r, h1)" by (cases "m h")
  from emitsD [OF m r] obtain n1 where n1: "h1 = h @ n1" "list_all P n1" by blast
  show "\<exists>new. snd (bind m f h) = h @ new \<and> list_all P new"
  proof (cases r)
    case (Inl e)
    with r n1 show ?thesis by (simp add: bind_def)
  next
    case (Inr v)
    obtain r2 h2 where r2: "f v h1 = (r2, h2)" by (cases "f v h1")
    from emitsD [OF f r2] obtain n2 where n2: "h2 = h1 @ n2" "list_all P n2" by blast
    from Inr r r2 n1 n2 show ?thesis by (simp add: bind_def)
  qed
qed

lemma emits_bind_call:
  assumes "P ev" and "emits P (f v)"
  shows "emits P (bind (call env ev v) f)"
proof (rule emitsI)
  fix h
  show "\<exists>new. snd (bind (call env ev v) f h) = h @ new \<and> list_all P new"
  proof (cases "raises env h ev")
    case (Some e)
    with assms(1) show ?thesis by (simp add: bind_def call_def)
  next
    case None
    obtain r h2 where r: "f v (h @ [ev]) = (r, h2)" by (cases "f v (h @ [ev])")
    from emitsD [OF assms(2) r] obtain n2 where "h2 = (h @ [ev]) @ n2" "list_all P n2" by blast
    with None r assms(1) show ?thesis by (simp add: bind_def call_def)
  qed
qed

lemma emits_try_except:
  "emits P m \<Longrightarrow> (\<And>e. emits P (handler e)) \<Longrightarrow> emits P (try_except m caught handler)"
proof (rule emitsI)
  fix h
  assume m: "emits P m" and f: "\<And>e. emits P (handler e)"
  obtain r h1 where r: "m h = (r, h1)" by (cases "m h")
  from emitsD [OF m r] obtain n1 where n1: "h1 = h @ n1" "list_all P n1" by blast
  show "\<exists>new. snd (try_except m caught handler h) = h @ new \<and> list_all P new"
  proof (cases r)
    case (Inr v)
    with r n1 show ?thesis by (simp add: try_except_def)
  next
    case (Inl e)
    obtain r2 h2 where r2: "handler e h1 = (r2, h2)" by (cases "handler e h1")
    from emitsD [OF f r2] obtain n2 where n2: "h2 = h1 @ n2" "list_all P n2" by blast
    from Inl r r2 n1 n2 show ?thesis by (simp add: try_except_def)
  qed
qed

lemma emits_mono: "emits P m \<Longrightarrow> (\<And>ev. P ev \<Longrightarrow> Q ev) \<Longrightarrow> emits Q m"
  unfolding emits_def by (metis (mono_tags, lifting) list.pred_mono_strong)

lemmas emits_intros = emits_return emits_raise emits_emit emits_call emits_call_h emits_bind emits_try_except

lemma emits_pD: "emits_p P m \<Longrightarrow> m h = Some (r, h') \<Longrightarrow> \<exists>new. h' = h @ new \<and> list_all P new"
  unfolding emits_p_def by blast

lemma emits_p_lift: "emits P m \<Longrightarrow> emits_p P (lift m)"
  unfolding emits_p_def lift_def by (auto dest: emitsD)

lemma emits_p_bind: 
  assumes m: "emits_p P m" and f: "\<And>v. emits_p P (f v)" 
  shows "emits_p P (bind_p m f)"
  unfolding emits_p_def
proof (intro allI impI)
  fix h r h'
  assume run: "bind_p m f h = Some (r, h')"
  then obtain r1 h1 where r1: "m h = Some (r1, h1)"
    by (auto simp: bind_p_def split: option.splits)
  from emits_pD [OF m r1] obtain n1 where n1: "h1 = h @ n1" "list_all P n1" by blast
  show "\<exists>new. h' = h @ new \<and> list_all P new"
  proof (cases r1)
    case (Inl e)
    with run r1 n1 show ?thesis by (auto simp: bind_p_def)
  next
    case (Inr v)
    with run r1 have "f v h1 = Some (r, h')" by (simp add: bind_p_def)
    from emits_pD [OF f this] obtain n2 where "h' = h1 @ n2" "list_all P n2" by blast
    with n1 show ?thesis by simp
  qed
qed

lemma emits_p_try_except: 
  assumes m: "emits_p P m" and f: "\<And>e. emits_p P (handler e)" 
  shows "emits_p P (try_except_p m caught handler)"
  unfolding emits_p_def
proof (intro allI impI)
  fix h r h'
  assume run: "try_except_p m caught handler h = Some (r, h')"
  then obtain r1 h1 where r1: "m h = Some (r1, h1)"
    by (auto simp: try_except_p_def split: option.splits)
  from emits_pD [OF m r1] obtain n1 where n1: "h1 = h @ n1" "list_all P n1" by blast
  show "\<exists>new. h' = h @ new \<and> list_all P new"
  proof (cases r1)
    case (Inr v)
    with run r1 n1 show ?thesis by (auto simp: try_except_p_def)
  next
    case (Inl e)
    show ?thesis
    proof (cases "caught e")
      case True
      with Inl run r1 have "handler e h1 = Some (r, h')" by (simp add: try_except_p_def)
      from emits_pD [OF f this] obtain n2 where "h' = h1 @ n2" "list_all P n2" by blast
      with n1 show ?thesis by simp
    next
      case False
      with Inl run r1 n1 show ?thesis by (auto simp: try_except_p_def)
    qed
  qed
qed

lemma emits_p_mono: "emits_p P m \<Longrightarrow> (\<And>ev. P ev \<Longrightarrow> Q ev) \<Longrightarrow> emits_p Q m"
  unfolding emits_p_def by (metis (mono_tags, lifting) list.pred_mono_strong)

lemmas emits_p_intros = emits_p_lift emits_p_bind emits_p_try_except

lemma exception_records_append [simp]:
  "exception_records (h @ k) = exception_records h @ exception_records k"
  by (simp add: exception_records_def)

lemma exception_records_simps [simp]:
  "exception_records [] = []"
  "exception_records (ev # h) = exception_record ev @ exception_records h"
  by (simp_all add: exception_records_def)

lemma exception_records_none:
  "list_all P new \<Longrightarrow> (\<And>ev. P ev \<Longrightarrow> exception_record ev = []) \<Longrightarrow> exception_records new = []"
  by (induction new) auto

lemma executions_append [simp]: "executions sig (h @ k) = executions sig h + executions sig k"
  by (simp add: executions_def)

subsection \<open>The audit orchestrator\<close>

lemma emits_audit_one:
  "emits (\<lambda>ev. auditor_call ev \<or> ev = ReadPreviousItems au) (audit_one env account send_report au)"
  unfolding audit_one_def
  by (auto intro!: emits_intros split: option.split list.split)

lemma emits_audit_loop:
  "emits (\<lambda>ev. auditor_call ev \<or> (\<exists>au \<in> set aus. ev = ReadPreviousItems au))
     (audit_loop env account send_report aus)"
proof (induction aus)
  case Nil
  show ?case by (simp add: emits_return)
next
  case (Cons au aus)
  show ?case
    by (auto intro!: emits_bind emits_mono [OF emits_audit_one] emits_mono [OF Cons.IH])
qed

lemma audit_loop_records:
  assumes "audit_loop env account send_report aus h = (r, h1)"
  shows "exception_records h1 = exception_records h"
proof -
  from emitsD [OF emits_audit_loop assms] obtain new where
    new: "h1 = h @ new" "list_all (\<lambda>ev. auditor_call ev \<or> (\<exists>au \<in> set aus. ev = ReadPreviousItems au)) new"
    by blast
  have "exception_records new = []"
    by (rule exception_records_none [OF new(2)]) (auto elim: auditor_call.elims)
  with new(1) show ?thesis by simp
qed

lemma priv_audit_changes_fault:
  assumes "audit_loop env account send_report aus h = (Inl e, h1)" and "db_error e"
  shows "priv_audit_changes env account aus send_report debug h =
           (Inr (), h1 @ [SessionRemove, StoreException ''scheduler-audit-changes'' e])"
  using assms
  by (simp add: priv_audit_changes_def try_except_def bind_def session_remove_def
        store_exception_def emit_def)

lemma emits_priv_audit_changes:
  "emits (\<lambda>ev. auditor_call ev \<or> recovery ev \<or> (\<exists>au \<in> set aus. ev = ReadPreviousItems au))
     (priv_audit_changes env account aus send_report debug)"
  unfolding priv_audit_changes_def session_remove_def store_exception_def
  by (auto intro!: emits_intros emits_mono [OF emits_audit_loop])

lemma emits_audit_monitors:
  "emits (sweep_event mons) (audit_monitors env account send_report debug True mons)"
proof (induction mons)
  case Nil
  show ?case by (simp add: emits_return)
next
  case (Cons mon mons)
  have tl: "emits (sweep_event (mon # mons)) (audit_monitors env account send_report debug True mons)"
    by (rule emits_mono [OF Cons.IH]) (auto simp: sweep_event_def)
  show ?case
  proof (cases "batch_support mon")
    case True
    with tl show ?thesis by simp
  next
    case False
    have "emits (sweep_event (mon # mons)) (priv_audit_changes env account (auditors mon) send_report debug)"
      by (rule emits_mono [OF emits_priv_audit_changes]) (use False in \<open>auto simp: sweep_event_def\<close>)
    with False tl show ?thesis
      by (auto intro!: emits_intros split: option.split)
  qed
qed

lemma emits_audit_changes:
  "emits (\<lambda>ev. ev = GetMonitorsAndDependencies account monitor_names debug \<or>
                sweep_event (get_monitors_and_dependencies env account monitor_names debug) ev)
     (audit_changes env [account] monitor_names send_report debug True)"
proof -
  have "emits (\<lambda>ev. ev = GetMonitorsAndDependencies account monitor_names debug \<or>
                sweep_event (get_monitors_and_dependencies env account monitor_names debug) ev)
     (bind (audit_monitors env account send_report debug True
              (get_monitors_and_dependencies env account monitor_names debug))
        (\<lambda>_. return ()))"
    by (intro emits_bind emits_return emits_mono [OF emits_audit_monitors]) simp
  then show ?thesis
    by (simp add: emits_bind_call)
qed

lemma audit_monitors_skip:
  "audit_monitors env account send_report debug True mons =
     audit_monitors env account send_report debug skip_batch
       (filter (\<lambda>m. \<not> batch_support m) mons)"
  by (induction mons) simp_all

lemma emits_audit_specific_one:
  "emits auditor_call (audit_specific_one env mon items send_report au)"
  unfolding audit_specific_one_def
  by (auto intro!: emits_intros split: option.split list.split)

lemma emits_audit_specific_loop:
  "emits auditor_call (audit_specific_loop env mon items send_report aus)"
  by (induction aus) (auto intro!: emits_intros emits_audit_specific_one)

lemma emits_priv_audit_specific_changes:
  "emits (\<lambda>ev. auditor_call ev \<or> recovery ev)
     (priv_audit_specific_changes env mon items send_report debug)"
  unfolding priv_audit_specific_changes_def session_remove_def store_exception_def
  by (auto intro!: emits_intros emits_mono [OF emits_audit_specific_loop]
           split: option.split list.split)

lemma audit_loop_append:
  "audit_loop env account send_report (xs @ ys) =
     bind (audit_loop env account send_report xs) (\<lambda>_. audit_loop env account send_report ys)"
  by (induction xs) (auto simp: bind_def return_def fun_eq_iff split: prod.splits sum.splits)

lemma audit_specific_loop_append:
  "audit_specific_loop env mon items send_report (xs @ ys) =
     bind (audit_specific_loop env mon items send_report xs)
       (\<lambda>_. audit_specific_loop env mon items send_report ys)"
  by (induction xs) (auto simp: bind_def return_def fun_eq_iff split: prod.splits sum.splits)

text \<open>
  Claim C7. A storage fault (operational, invalid-request or statement-level) raised
  while the auditors of one monitor run in the sweep over an account's monitors is not
  raised further: the session is removed, one exception record tagged
  \<open>scheduler-audit-changes\<close> is stored, and the sweep goes on with the remaining
  monitors from there. The auditors themselves store no record, so the monitor adds
  exactly that one.
\<close>

theorem audit_fault_recorded_and_swallowed:
  assumes "watcher mon = Some w"
    and "\<not> (batch_support mon \<and> skip_batch)"
    and "audit_loop env account send_report (auditors mon) h = (Inl e, h1)"
    and "db_error e"
  shows "audit_monitors env account send_report debug skip_batch (mon # mons) h =
           audit_monitors env account send_report debug skip_batch mons
             (h1 @ [SessionRemove, StoreException ''scheduler-audit-changes'' e]) \<and>
         exception_records (h1 @ [SessionRemove, StoreException ''scheduler-audit-changes'' e]) =
           exception_records h @ [(''scheduler-audit-changes'', e)]"
proof
  from assms(1,2) priv_audit_changes_fault [OF assms(3,4), of debug]
  show "audit_monitors env account send_report debug skip_batch (mon # mons) h =
           audit_monitors env account send_report debug skip_batch mons
             (h1 @ [SessionRemove, StoreException ''scheduler-audit-changes'' e])"
    by (auto simp: bind_def)
next
  from audit_loop_records [OF assms(3)]
  show "exception_records (h1 @ [SessionRemove, StoreException ''scheduler-audit-changes'' e]) =
           exception_records h @ [(''scheduler-audit-changes'', e)]"
    by simp
qed

theorem audit_fault_recorded_and_swallowed_witness:
  "audit_loop save_fault_env ''prod'' False (auditors iamrole_monitor) [] =
     (Inl OperationalError,
      [ReadPreviousItems (Auditor ''iamrole''), SetItems (Auditor ''iamrole'') [''item''],
       AuditObjects (Auditor ''iamrole''), SaveIssues (Auditor ''iamrole'')]) \<and>
   audit_monitors save_fault_env ''prod'' False True True [iamrole_monitor, iamrole_monitor] [] =
     (Inr (),
      [ReadPreviousItems (Auditor ''iamrole''), SetItems (Auditor ''iamrole'') [''item''],
       AuditObjects (Auditor ''iamrole''), SaveIssues (Auditor ''iamrole''),
       SessionRemove, StoreException ''scheduler-audit-changes'' OperationalError,
       ReadPreviousItems (Auditor ''iamrole''), SetItems (Auditor ''iamrole'') [''item''],
       AuditObjects (Auditor ''iamrole''), SaveIssues (Auditor ''iamrole''),
       SessionRemove, StoreException ''scheduler-audit-changes'' OperationalError])"
proof -
  let ?h1 = "[ReadPreviousItems (Auditor ''iamrole''), SetItems (Auditor ''iamrole'') [''item''],
       AuditObjects (Auditor ''iamrole''), SaveIssues (Auditor ''iamrole'')]"
  have a: "watcher iamrole_monitor = Some iamrole_watcher"
    by (simp add: save_fault_defs)
  have b: "\<not> (batch_support iamrole_monitor \<and> True)"
    by (simp add: save_fault_defs)
  have c: "audit_loop save_fault_env ''prod'' False (auditors iamrole_monitor) [] =
             (Inl OperationalError, ?h1)"
    by code_simp
  have d: "db_error OperationalError"
    by (simp add: db_error_def)
  have e: "audit_monitors save_fault_env ''prod'' False True True [iamrole_monitor]
             (?h1 @ [SessionRemove, StoreException ''scheduler-audit-changes'' OperationalError]) =
           (Inr (),
            ?h1 @ [SessionRemove, StoreException ''scheduler-audit-changes'' OperationalError] @
            ?h1 @ [SessionRemove, StoreException ''scheduler-audit-changes'' OperationalError])"
    by code_simp
  from audit_fault_recorded_and_swallowed [OF a b c d, of True "[iamrole_monitor]"] c e
  show ?thesis by simp
qed

text \<open>
  Claim C9. In both modes of the orchestrator the \<^verbatim>\<open>except\<close> clause encloses the whole
  loop over the auditors. When the auditors \<open>before\<close> have run and the next one raises
  a storage fault, the function returns after the recovery: the history ends with the
  events of the faulting auditor, the session reset and the record, and holds nothing of
  the auditors in \<open>rest\<close>.
\<close>

theorem fault_skips_remaining_auditors:
  "(audit_loop env account send_report before h = (Inr (), h1) \<longrightarrow>
    audit_one env account send_report au h1 = (Inl e, h2) \<longrightarrow> db_error e \<longrightarrow>
      priv_audit_changes env account (before @ au # rest) send_report debug h =
        (Inr (), h2 @ [SessionRemove, StoreException ''scheduler-audit-changes'' e])) \<and>
   (auditors mon = before @ au # rest \<longrightarrow> watcher mon = Some w \<longrightarrow> accounts w \<noteq> [] \<longrightarrow>
    audit_specific_loop env mon items send_report before h = (Inr (), k1) \<longrightarrow>
    audit_specific_one env mon items send_report au k1 = (Inl e', k2) \<longrightarrow> db_error e' \<longrightarrow>
      priv_audit_specific_changes env mon items send_report debug h =
        (Inr (), k2 @ [SessionRemove, StoreException ''scheduler-audit-changes'' e']))"
proof (intro conjI impI)
  assume a: "audit_loop env account send_report before h = (Inr (), h1)"
    "audit_one env account send_report au h1 = (Inl e, h2)" "db_error e"
  then have "audit_loop env account send_report (before @ au # rest) h = (Inl e, h2)"
    by (simp add: audit_loop_append bind_def)
  from priv_audit_changes_fault [OF this a(3)]
  show "priv_audit_changes env account (before @ au # rest) send_report debug h =
        (Inr (), h2 @ [SessionRemove, StoreException ''scheduler-audit-changes'' e])" .
next
  assume a: "auditors mon = before @ au # rest" "watcher mon = Some w" "accounts w \<noteq> []"
    "audit_specific_loop env mon items send_report before h = (Inr (), k1)"
    "audit_specific_one env mon items send_report au k1 = (Inl e', k2)" "db_error e'"
  then have "audit_specific_loop env mon items send_report (auditors mon) h = (Inl e', k2)"
    by (simp add: audit_specific_loop_append bind_def)
  with a(2,3,6)
  show "priv_audit_specific_changes env mon items send_report debug h =
        (Inr (), k2 @ [SessionRemove, StoreException ''scheduler-audit-changes'' e'])"
    by (simp add: priv_audit_specific_changes_def try_except_def bind_def session_remove_def
          store_exception_def emit_def split: list.splits)
qed

theorem fault_skips_remaining_auditors_witness:
  "priv_audit_changes save_fault_env ''prod'' ([] @ Auditor ''s3'' # [Auditor ''iamrole'']) False True [] =
     (Inr (),
      [ReadPreviousItems (Auditor ''s3''), SetItems (Auditor ''s3'') [''item''],
       AuditObjects (Auditor ''s3''), SaveIssues (Auditor ''s3''),
       SessionRemove, StoreException ''scheduler-audit-changes'' OperationalError]) \<and>
   priv_audit_specific_changes save_fault_env
     (s3_monitor\<lparr>auditors := [] @ Auditor ''s3'' # [Auditor ''iamrole'']\<rparr>) [''item''] False True [] =
     (Inr (),
      [SetItems (Auditor ''s3'') [''item''],
       AuditObjects (Auditor ''s3''), SaveIssues (Auditor ''s3''),
       SessionRemove, StoreException ''scheduler-audit-changes'' OperationalError])"
proof -
  let ?mon = "s3_monitor\<lparr>auditors := [] @ Auditor ''s3'' # [Auditor ''iamrole'']\<rparr>"
  let ?h2 = "[ReadPreviousItems (Auditor ''s3''), SetItems (Auditor ''s3'') [''item''],
       AuditObjects (Auditor ''s3''), SaveIssues (Auditor ''s3'')]"
  let ?k2 = "[SetItems (Auditor ''s3'') [''item''],
       AuditObjects (Auditor ''s3''), SaveIssues (Auditor ''s3'')]"
  have a: "audit_loop save_fault_env ''prod'' False [] [] = (Inr (), [])"
    by (simp add: return_def)
  have b: "audit_one save_fault_env ''prod'' False (Auditor ''s3'') [] = (Inl OperationalError, ?h2)"
    by code_simp
  have c: "db_error OperationalError"
    by (simp add: db_error_def)
  have d: "auditors ?mon = [] @ Auditor ''s3'' # [Auditor ''iamrole'']"
    "watcher ?mon = Some s3_watcher" "accounts s3_watcher \<noteq> []"
    by (simp_all add: save_fault_defs)
  have e: "audit_specific_loop save_fault_env ?mon [''item''] False [] [] = (Inr (), [])"
    by (simp add: return_def)
  have f: "audit_specific_one save_fault_env ?mon [''item''] False (Auditor ''s3'') [] =
             (Inl OperationalError, ?k2)"
    by code_simp
  from fault_skips_remaining_auditors
    [of save_fault_env "''prod''" False "[]" "[]" "[]" "Auditor ''s3''" OperationalError ?h2
        "[Auditor ''iamrole'']" True ?mon s3_watcher "[''item'']" "[]" OperationalError ?k2]
    a b c d e f
  show ?thesis by simp
qed

subsection \<open>The batch consumer\<close>

lemma page_event_auditing: "auditor_call ev \<or> recovery ev \<Longrightarrow> page_event ev"
  by (cases ev) auto

lemma emits_page: "emits page_event (page env mon cw debug)"
  unfolding page_def
  by (auto intro!: emits_intros emits_mono [OF emits_priv_audit_specific_changes]
           simp: page_event_auditing split: prod.split)

lemma emits_paging_aux:
  assumes "paging env mon cw debug h = Some y"
  shows "\<exists>new. snd y = h @ new \<and> list_all page_event new"
proof (rule paging.raw_induct
    [where P = "\<lambda>env mon cw debug h y. \<exists>new. snd y = h @ new \<and> list_all page_event new",
     OF _ assms])
  fix f env mon cw debug h y
  assume IH: "\<And>env mon cw debug h y. f env mon cw debug h = Some y \<Longrightarrow>
                \<exists>new. snd y = h @ new \<and> list_all page_event new"
    and eq: "(if done_slurping env h cw then Some (Inr (), h)
              else case page env mon cw debug h of
                     (Inl e, h') \<Rightarrow> Some (Inl e, h')
                   | (Inr x, h') \<Rightarrow> f env mon cw debug h') = Some y"
  show "\<exists>new. snd y = h @ new \<and> list_all page_event new"
  proof (cases "done_slurping env h cw")
    case True
    with eq show ?thesis by auto
  next
    case False
    obtain r1 h1 where p: "page env mon cw debug h = (r1, h1)"
      by (cases "page env mon cw debug h")
    from emitsD [OF emits_page p] obtain n1 where n1: "h1 = h @ n1" "list_all page_event n1"
      by blast
    show ?thesis
    proof (cases r1)
      case (Inl e)
      with False p eq have "y = (Inl e, h1)" by simp
      with n1 show ?thesis by simp
    next
      case (Inr u)
      with False p eq have "f env mon cw debug h1 = Some y" by simp
      from IH [OF this] n1 show ?thesis by auto
    qed
  qed
qed

lemma emits_paging: "emits_p page_event (paging env mon cw debug)"
  unfolding emits_p_def using emits_paging_aux by fastforce




lemma batch_logic_first_fetch:
  assumes "raises env h (SlurpList (index cw)) = None"
    and "slurp_list env h cw = (items, exception_map)"
  shows "batch_logic env mon cw account_name debug h =
     (if length exception_map > 0
      then Some (Inr (), h @ [SlurpList (index cw), LogError (i_am_plural cw) account_name
                   (if length (fst (hd exception_map)) > 2 then fst (hd exception_map) ! 2 else ''unknown'')])
      else bind_p (paging env mon cw debug) (\<lambda>_.
             lift (call env (FindDeletedBatch (index cw) account_name) ())) (h @ [SlurpList (index cw)]))"
  using assms by (simp add: batch_logic_def bind_p_def lift_def call_def emit_def Let_def)


text \<open>
  Claim C3. When the first fetch of the batch consumer returns a non-empty exception
  map, the consumer returns normally and has made two calls only: the first fetch and the
  error log naming the region of the first failing scope (\<open>unknown\<close> when the scope has
  no third component). So no page is fetched, no change detection, audit or deletion
  reconciliation runs, and no exception record is stored.
\<close>

theorem batch_total_fetch_failure_aborts:
  assumes "raises env h (SlurpList (index cw)) = None"
    and "slurp_list env h cw = (items, exception_map)"
    and "exception_map \<noteq> []"
  shows "batch_logic env mon cw account_name debug h =
           Some (Inr (), h @ [SlurpList (index cw),
                              LogError (i_am_plural cw) account_name
                                (if length (fst (hd exception_map)) > 2
                                 then fst (hd exception_map) ! 2 else ''unknown'')])"
  using assms by (simp add: batch_logic_first_fetch)

theorem batch_total_fetch_failure_aborts_witness:
  "batch_logic fetch_failure_env s3_monitor s3_watcher ''prod'' True [] =
     Some (Inr (), [SlurpList ''s3'', LogError ''s3'' ''prod'' ''us-east-1''])"
proof -
  have a: "raises fetch_failure_env [] (SlurpList (index s3_watcher)) = None"
    by (simp add: fetch_failure_defs)
  have b: "slurp_list fetch_failure_env [] s3_watcher =
             ([], [([''s3'', ''prod'', ''us-east-1''], OtherException ''AccessDenied'')])"
    by (simp add: fetch_failure_defs)
  have c: "[([''s3'', ''prod'', ''us-east-1''], OtherException ''AccessDenied'')] \<noteq> []"
    by simp
  from batch_total_fetch_failure_aborts [OF a b c, of s3_monitor "''prod''" True]
  show ?thesis by (simp add: fetch_failure_defs)
qed



subsection \<open>The change finder\<close>

lemma watch_event_page: "page_event ev \<Longrightarrow> watch_event ev"
  by (cases ev) auto

lemma emits_batch_logic: "emits_p watch_event (batch_logic env mon cw account_name debug)"
  unfolding batch_logic_def Let_def
  by (auto intro!: emits_p_intros emits_intros emits_p_mono [OF emits_paging]
        simp: watch_event_page split: prod.split)

lemma emits_watch_one: "emits_p watch_event (watch_one env account_name debug mon)"
  unfolding watch_one_def
  by (auto intro!: emits_p_intros emits_intros emits_batch_logic split: option.split prod.split)

lemma emits_watch_loop: "emits_p watch_event (watch_loop env account_name debug mons)"
  by (induction mons) (auto intro!: emits_p_intros emits_intros emits_watch_one)

lemma emits_find_changes:
  "emits_p (finder_event env account_name monitor_name debug)
     (find_changes env account_name monitor_name debug)"
  unfolding find_changes_def session_close_def
  by (auto intro!: emits_p_intros emits_intros emits_p_mono [OF emits_watch_loop]
        emits_mono [OF emits_audit_changes]
        simp: finder_event_def simp del: audit_changes.simps)

lemma find_changes_returns_closed:
  "find_changes env account_name monitor_name debug h = Some (Inr ms, h') \<Longrightarrow>
     \<exists>k. h' = k @ [SessionClose]"
  by (auto simp: find_changes_def bind_p_def lift_def session_close_def emit_def return_def
        split: option.splits sum.splits prod.splits)

lemma find_changes_raises_unclosed:
  assumes "find_changes env account_name monitor_name debug h = Some (Inl e, h')"
  shows "SessionClose \<notin> set (drop (length h) h')"
proof -
  let ?h0 = "h @ [GetMonitors account_name [monitor_name] debug]"
  let ?ms = "get_monitors env account_name [monitor_name] debug"
  show ?thesis
  proof (cases "raises env h (GetMonitors account_name [monitor_name] debug)")
    case (Some e')
    with assms show ?thesis
      by (auto simp: find_changes_def bind_p_def lift_def call_def)
  next
    case None
    from None assms obtain r1 h1 where w: "watch_loop env account_name debug ?ms ?h0 = Some (r1, h1)"
      by (auto simp: find_changes_def bind_p_def lift_def call_def split: option.splits)
    from emits_pD [OF emits_watch_loop w] obtain n1 where
      n1: "h1 = ?h0 @ n1" "list_all watch_event n1" by blast
    from n1(2) have c1: "SessionClose \<notin> set n1" by (auto simp: list_all_iff)
    show ?thesis
    proof (cases r1)
      case (Inl e1)
      with None assms w have "h' = h1"
        by (simp add: find_changes_def bind_p_def lift_def call_def)
      with n1 c1 show ?thesis by simp
    next
      case (Inr u)
      obtain r2 h2 where a: "audit_changes env [account_name] [monitor_name] False debug True h1 = (r2, h2)"
        by (cases "audit_changes env [account_name] [monitor_name] False debug True h1")
      from emitsD [OF emits_audit_changes a] obtain n2 where
        n2: "h2 = h1 @ n2"
          "list_all (\<lambda>ev. ev = GetMonitorsAndDependencies account_name [monitor_name] debug \<or>
              sweep_event (get_monitors_and_dependencies env account_name [monitor_name] debug) ev) n2"
        by blast
      from n2(2) have c2: "SessionClose \<notin> set n2"
        by (auto simp: list_all_iff sweep_event_def)
      from Inr None assms w a have "h' = h2"
        by (cases r2)
           (simp_all add: find_changes_def bind_p_def lift_def call_def session_close_def
              emit_def return_def del: audit_changes.simps)
      with n1 n2 c1 c2 show ?thesis by simp
    qed
  qed
qed

text \<open>
  Claim C5, as amended. The change finder closes the data session as its last action
  when it returns normally. It has no \<^verbatim>\<open>finally\<close>: when it exits with an exception it
  has not closed the session (its callers reset the session, and only for storage
  faults).
\<close>

theorem find_changes_session_release:
  assumes "find_changes env account_name monitor_name debug h = Some (r, h')"
  shows "case r of
           Inr monitors \<Rightarrow> h' \<noteq> [] \<and> last h' = SessionClose
         | Inl e \<Rightarrow> SessionClose \<notin> set (drop (length h) h')"
proof (cases r)
  case (Inr ms)
  with assms find_changes_returns_closed show ?thesis by fastforce
next
  case (Inl e)
  with assms find_changes_raises_unclosed show ?thesis by fastforce
qed

theorem find_changes_session_release_witness:
  "find_changes prod_env ''prod'' ''iamrole'' True [] =
     Some (Inr [iamrole_monitor],
       [GetMonitors ''prod'' [''iamrole''] True, Slurp ''iamrole'',
        WatcherFindChanges ''iamrole'' [''item''] [], Save ''iamrole'',
        GetMonitorsAndDependencies ''prod'' [''iamrole''] True,
        ReadPreviousItems (Auditor ''iamrole''), SetItems (Auditor ''iamrole'') [''item''],
        AuditObjects (Auditor ''iamrole''), SaveIssues (Auditor ''iamrole''), SessionClose]) \<and>
   last [GetMonitors ''prod'' [''iamrole''] True, Slurp ''iamrole'',
        WatcherFindChanges ''iamrole'' [''item''] [], Save ''iamrole'',
        GetMonitorsAndDependencies ''prod'' [''iamrole''] True,
        ReadPreviousItems (Auditor ''iamrole''), SetItems (Auditor ''iamrole'') [''item''],
        AuditObjects (Auditor ''iamrole''), SaveIssues (Auditor ''iamrole''), SessionClose]
     = SessionClose"
proof -
  have run: "find_changes prod_env ''prod'' ''iamrole'' True [] =
     Some (Inr [iamrole_monitor],
       [GetMonitors ''prod'' [''iamrole''] True, Slurp ''iamrole'',
        WatcherFindChanges ''iamrole'' [''item''] [], Save ''iamrole'',
        GetMonitorsAndDependencies ''prod'' [''iamrole''] True,
        ReadPreviousItems (Auditor ''iamrole''), SetItems (Auditor ''iamrole'') [''item''],
        AuditObjects (Auditor ''iamrole''), SaveIssues (Auditor ''iamrole''), SessionClose])"
    by (simp add: find_changes_def watch_one_def priv_audit_changes_def audit_one_def
          scenario_defs io_defs)
  from find_changes_session_release [OF run] run show ?thesis by simp
qed

text \<open>
  The claim as stated fails: a storage fault in the page fetch makes the change finder
  exit with that exception after two calls, neither of which releases the session.
\<close>

theorem find_changes_session_release_counterexample:
  "find_changes slurp_fault_env ''prod'' ''iamrole'' True [] =
     Some (Inl OperationalError, [GetMonitors ''prod'' [''iamrole''] True, Slurp ''iamrole''])"
  by (simp add: find_changes_def watch_one_def slurp_fault_defs io_defs)

text \<open>
  Claim C6. The sweep with \<^verbatim>\<open>skip_batch\<close> set passes over every batch-supporting
  monitor: it is the sweep over the monitors that are not batch-supporting, so no auditor
  of a batch-supporting monitor runs in it. The change finder calls the sweep with
  \<^verbatim>\<open>skip_batch\<close> set: every auditor whose previous items are read during a run of the
  change finder (which only the sweep does) belongs to a monitor of the dependency
  closure that is not batch-supporting.
\<close>

theorem skip_batch_honoured:
  "audit_monitors env account send_report debug True mons h =
     audit_monitors env account send_report debug skip_batch
       (filter (\<lambda>m. \<not> batch_support m) mons) h \<and>
   (find_changes env account_name monitor_name debug h = Some (r, h') \<longrightarrow>
      (\<forall>au. ReadPreviousItems au \<in> set (drop (length h) h') \<longrightarrow>
         (\<exists>m \<in> set (get_monitors_and_dependencies env account_name [monitor_name] debug).
            \<not> batch_support m \<and> au \<in> set (auditors m))))"
proof (intro conjI impI allI)
  show "audit_monitors env account send_report debug True mons h =
     audit_monitors env account send_report debug skip_batch
       (filter (\<lambda>m. \<not> batch_support m) mons) h"
    by (simp add: audit_monitors_skip [of _ _ _ _ _ skip_batch])
next
  fix au
  assume run: "find_changes env account_name monitor_name debug h = Some (r, h')"
    and au: "ReadPreviousItems au \<in> set (drop (length h) h')"
  from emits_pD [OF emits_find_changes run] obtain new where
    new: "h' = h @ new" "list_all (finder_event env account_name monitor_name debug) new" by blast
  with au have "finder_event env account_name monitor_name debug (ReadPreviousItems au)"
    by (auto simp: list_all_iff)
  then show "\<exists>m \<in> set (get_monitors_and_dependencies env account_name [monitor_name] debug).
            \<not> batch_support m \<and> au \<in> set (auditors m)"
    by (auto simp: finder_event_def sweep_event_def)
qed

theorem skip_batch_honoured_witness:
  "audit_monitors prod_env ''prod'' False True True [s3_monitor, iamrole_monitor] [] =
     audit_monitors prod_env ''prod'' False True False [iamrole_monitor] [] \<and>
   find_changes prod_env ''prod'' ''s3'' True [] =
     Some (Inr [s3_monitor],
       [GetMonitors ''prod'' [''s3''] True, SlurpList ''s3'',
        Slurp ''s3'', WatcherFindChanges ''s3'' [''item''] [],
        SetItems (Auditor ''s3'') [''item''], AuditObjects (Auditor ''s3''),
        SaveIssues (Auditor ''s3''),
        Slurp ''s3'', WatcherFindChanges ''s3'' [''item''] [],
        SetItems (Auditor ''s3'') [''item''], AuditObjects (Auditor ''s3''),
        SaveIssues (Auditor ''s3''),
        FindDeletedBatch ''s3'' ''prod'',
        GetMonitorsAndDependencies ''prod'' [''s3''] True,
        ReadPreviousItems (Auditor ''iamrole''), SetItems (Auditor ''iamrole'') [''item''],
        AuditObjects (Auditor ''iamrole''), SaveIssues (Auditor ''iamrole''),
        SessionClose]) \<and>
   \<not> batch_support iamrole_monitor \<and> Auditor ''iamrole'' \<in> set (auditors iamrole_monitor)"
proof -
  let ?h = "[GetMonitors ''prod'' [''s3''] True, SlurpList ''s3'',
        Slurp ''s3'', WatcherFindChanges ''s3'' [''item''] [],
        SetItems (Auditor ''s3'') [''item''], AuditObjects (Auditor ''s3''),
        SaveIssues (Auditor ''s3''),
        Slurp ''s3'', WatcherFindChanges ''s3'' [''item''] [],
        SetItems (Auditor ''s3'') [''item''], AuditObjects (Auditor ''s3''),
        SaveIssues (Auditor ''s3''),
        FindDeletedBatch ''s3'' ''prod'',
        GetMonitorsAndDependencies ''prod'' [''s3''] True,
        ReadPreviousItems (Auditor ''iamrole''), SetItems (Auditor ''iamrole'') [''item''],
        AuditObjects (Auditor ''iamrole''), SaveIssues (Auditor ''iamrole''),
        SessionClose]"
  have a: "filter (\<lambda>m. \<not> batch_support m) [s3_monitor, iamrole_monitor] = [iamrole_monitor]"
    by (simp add: scenario_defs)
  have b: "find_changes prod_env ''prod'' ''s3'' True [] = Some (Inr [s3_monitor], ?h)"
    by code_simp
  have c: "ReadPreviousItems (Auditor ''iamrole'') \<in> set (drop (length []) ?h)"
    by simp
  have d: "\<not> batch_support iamrole_monitor \<and> Auditor ''iamrole'' \<in> set (auditors iamrole_monitor)"
    by (simp add: scenario_defs)
  from skip_batch_honoured
    [where mons = "[s3_monitor, iamrole_monitor]" and env = prod_env and account = "''prod''"
       and send_report = False and debug = True and skip_batch = False and h = "[]"
       and account_name = "''prod''" and monitor_name = "''s3''" and r = "Inr [s3_monitor]"
       and h' = ?h]
    a b c d
  show ?thesis by simp
qed

subsection \<open>The task executors\<close>

lemma attempt_event_auditing: "auditor_call ev \<or> recovery ev \<Longrightarrow> attempt_event sig k ev"
  by (cases ev) auto

lemma attempt_event_sweep: "sweep_event mons ev \<Longrightarrow> attempt_event sig k ev"
  by (cases ev) (auto simp: sweep_event_def)

lemma attempt_event_watch: "watch_event ev \<Longrightarrow> attempt_event sig k ev"
  by (cases ev) auto

lemma attempt_event_finder: "finder_event env a t d ev \<Longrightarrow> attempt_event sig k ev"
  by (auto simp: finder_event_def attempt_event_sweep attempt_event_watch)

lemma executions_attempt: "list_all (attempt_event sig k) new \<Longrightarrow> executions sig' new = 0"
  by (induction new) (auto simp: executions_def elim: attempt_event.elims)

lemma emits_setup_modules: "emits (attempt_event sig k) (setup_modules env)"
  unfolding setup_modules_def by (auto intro!: emits_intros)

lemma emits_retry_handler:
  "emits (attempt_event sig k)
     (bind (capture env) (\<lambda>_. bind (store_exception source e) (\<lambda>_. retry sig k e)))"
  unfolding capture_def store_exception_def retry_def max_retries_def
  by (auto intro!: emits_intros)

lemma emits_task_audit:
  "emits (attempt_event (TaskAudit a t) k) (task_audit env k a t)"
  unfolding task_audit_def
  by (intro emits_bind emits_try_except emits_setup_modules emits_retry_handler
        emits_mono [OF emits_audit_changes])
     (auto simp: attempt_event_sweep)

lemma emits_task_account_tech:
  "emits_p (attempt_event (TaskAccountTech a t) k) (task_account_tech env k a t)"
  unfolding task_account_tech_def reporter_logic_def watch_and_alert_def
    session_remove_def
  by (intro emits_p_bind emits_p_try_except emits_p_lift emits_setup_modules
        emits_retry_handler emits_p_mono [OF emits_find_changes] emits_bind emits_emit
        emits_call emits_raise)
     (auto simp: attempt_event_finder store_exception_def intro!: emits_intros)

lemma attempt_last:
  assumes "list_all (attempt_event sig k) new"
    and "last ((h @ [Received sig k]) @ new) = RetrySent sig (k + 1)"
  shows "k < 3"
proof (cases "new = []")
  case True
  with assms(2) show ?thesis by simp
next
  case False
  with assms(2) have "last new = RetrySent sig (k + 1)" by simp
  moreover from False assms(1) have "attempt_event sig k (last new)"
    by (simp add: list_all_iff)
  ultimately show ?thesis by simp
qed

lemma deliver_audit_bounded:
  "\<exists>r h'. deliver_audit env a t k h = Some (r, h') \<and>
           executions (TaskAudit a t) h' \<le> executions (TaskAudit a t) h + Suc (3 - k)"
proof (induction "3 - k" arbitrary: k h rule: less_induct)
  case less
  let ?sig = "TaskAudit a t"
  obtain r1 h1 where run: "task_audit env k a t (h @ [Received ?sig k]) = (r1, h1)"
    by (cases "task_audit env k a t (h @ [Received ?sig k])")
  from emitsD [OF emits_task_audit run] obtain new where
    new: "h1 = (h @ [Received ?sig k]) @ new" "list_all (attempt_event ?sig k) new" by blast
  have ex1: "executions ?sig h1 = executions ?sig h + 1"
    using new executions_attempt [OF new(2), of ?sig] by (simp add: executions_def)
  show ?case
  proof (cases "last h1 = RetrySent ?sig (k + 1)")
    case True
    with new have k: "k < 3" using attempt_last by blast
    then have "3 - (k + 1) < 3 - k" by simp
    from less [OF this, of h1] obtain r h' where
      rec: "deliver_audit env a t (k + 1) h1 = Some (r, h')"
        "executions ?sig h' \<le> executions ?sig h1 + Suc (3 - (k + 1))" by blast
    from run True rec(1) have "deliver_audit env a t k h = Some (r, h')"
      by (subst deliver_audit.simps) simp
    with rec(2) ex1 k show ?thesis by auto
  next
    case False
    with run have "deliver_audit env a t k h = Some (r1, h1)"
      by (subst deliver_audit.simps) simp
    with ex1 show ?thesis by simp
  qed
qed

lemma deliver_account_tech_bounded:
  "deliver_account_tech env a t k h = Some (r, h') \<Longrightarrow>
     executions (TaskAccountTech a t) h' \<le> executions (TaskAccountTech a t) h + Suc (3 - k)"
proof (induction "3 - k" arbitrary: k h rule: less_induct)
  case less
  let ?sig = "TaskAccountTech a t"
  from less.prems obtain r1 h1 where
    run: "task_account_tech env k a t (h @ [Received ?sig k]) = Some (r1, h1)"
    by (subst (asm) deliver_account_tech.simps) (auto split: option.splits)
  from emits_pD [OF emits_task_account_tech run] obtain new where
    new: "h1 = (h @ [Received ?sig k]) @ new" "list_all (attempt_event ?sig k) new" by blast
  have ex1: "executions ?sig h1 = executions ?sig h + 1"
    using new executions_attempt [OF new(2), of ?sig] by (simp add: executions_def)
  show ?case
  proof (cases "last h1 = RetrySent ?sig (k + 1)")
    case True
    with new have k: "k < 3" using attempt_last by blast
    then have lt: "3 - (k + 1) < 3 - k" by simp
    from run True less.prems have "deliver_account_tech env a t (k + 1) h1 = Some (r, h')"
      by (subst (asm) deliver_account_tech.simps) simp
    from less.hyps [OF lt this] ex1 k show ?thesis by auto
  next
    case False
    with run less.prems have "h' = h1"
      by (subst (asm) deliver_account_tech.simps) simp
    with ex1 show ?thesis by simp
  qed
qed

lemma deliver_account_tech_returns:
  assumes total: "\<And>k h. task_account_tech env k a t h \<noteq> None"
  shows "\<exists>r h'. deliver_account_tech env a t k h = Some (r, h')"
proof (induction "3 - k" arbitrary: k h rule: less_induct)
  case less
  let ?sig = "TaskAccountTech a t"
  from total obtain r1 h1 where
    run: "task_account_tech env k a t (h @ [Received ?sig k]) = Some (r1, h1)"
    by fastforce
  from emits_pD [OF emits_task_account_tech run] obtain new where
    new: "h1 = (h @ [Received ?sig k]) @ new" "list_all (attempt_event ?sig k) new" by blast
  show ?case
  proof (cases "last h1 = RetrySent ?sig (k + 1)")
    case True
    with new have k: "k < 3" using attempt_last by blast
    then have lt: "3 - (k + 1) < 3 - k" by simp
    from less [OF lt, of h1] obtain r h' where
      "deliver_account_tech env a t (k + 1) h1 = Some (r, h')" by blast
    with run True show ?thesis
      by (subst deliver_account_tech.simps) simp
  next
    case False
    with run show ?thesis
      by (subst deliver_account_tech.simps) simp
  qed
qed

lemma task_account_tech_failure:
  assumes "setup_modules env h = (Inr (), h1)"
    and "reporter_logic env account_name technology_name h1 = Some (Inl e, h2)"
  shows "task_account_tech env k account_name technology_name h =
           Some (Inl (if k < 3 then Retry else e),
                 h2 @ (if sentry env then [SentryCapture] else []) @
                 [StoreException ''scheduler-exception-on-watch'' e] @
                 (if k < 3 then [RetrySent (TaskAccountTech account_name technology_name) (k + 1)]
                  else []))"
  using assms
  by (simp add: task_account_tech_def bind_p_def lift_def try_except_p_def bind_def
        store_exception_def emit_def raise_def any_exception_def capture_def return_def
        retry_def max_retries_def)

lemma task_audit_failure:
  assumes "setup_modules env h = (Inr (), h1)"
    and "audit_changes env [account_name] [technology_name] True True True h1 = (Inl e, h2)"
  shows "task_audit env k account_name technology_name h =
           (Inl (if k < 3 then Retry else e),
            h2 @ (if sentry env then [SentryCapture] else []) @
            [StoreException ''scheduler-exception-on-audit'' e] @
            (if k < 3 then [RetrySent (TaskAudit account_name technology_name) (k + 1)]
             else []))"
  using assms
  by (simp add: task_audit_def try_except_def bind_def
        store_exception_def emit_def raise_def any_exception_def capture_def return_def
        retry_def max_retries_def del: audit_changes.simps)

lemma slurp_fault_attempt:
  "task_account_tech slurp_fault_env k ''prod'' ''iamrole'' h0 =
     Some (Inl (if k < 3 then Retry else OperationalError),
           h0 @ [FindModules ''alerters'', FindModules ''watchers'', FindModules ''auditors'',
                 GetMonitors ''prod'' [''iamrole''] True, Slurp ''iamrole'', SessionRemove,
                 StoreException ''scheduler-task-account-tech'' OperationalError,
                 StoreException ''scheduler-exception-on-watch'' OperationalError] @
           (if k < 3 then [RetrySent (TaskAccountTech ''prod'' ''iamrole'') (k + 1)] else []))"
  by (simp add: task_account_tech_def setup_modules_def reporter_logic_def watch_and_alert_def
        find_changes_def watch_one_def retry_def max_retries_def slurp_fault_defs io_defs)

text \<open>
  Claim C10. A storage fault that leaves the body of \<^verbatim>\<open>reporter_logic\<close> (the watch,
  the audit sweep or the alert) is recorded twice in one run of the task: by
  \<^verbatim>\<open>reporter_logic\<close>, which removes the session, stores it under
  \<open>scheduler-task-account-tech\<close> and raises it again, and by the task, which stores it
  under \<open>scheduler-exception-on-watch\<close> before it retries.
\<close>

theorem watch_fault_recorded_twice:
  assumes "setup_modules env h = (Inr (), h1)"
    and "watch_and_alert env account_name technology_name h1 = Some (Inl e, h2)"
    and "db_error e"
  shows "task_account_tech env retries account_name technology_name h =
           Some (Inl (if retries < 3 then Retry else e),
                 h2 @ [SessionRemove, StoreException ''scheduler-task-account-tech'' e] @
                 (if sentry env then [SentryCapture] else []) @
                 [StoreException ''scheduler-exception-on-watch'' e] @
                 (if retries < 3
                  then [RetrySent (TaskAccountTech account_name technology_name) (retries + 1)]
                  else [])) \<and>
         exception_records
           (h2 @ [SessionRemove, StoreException ''scheduler-task-account-tech'' e] @
            (if sentry env then [SentryCapture] else []) @
            [StoreException ''scheduler-exception-on-watch'' e] @
            (if retries < 3
             then [RetrySent (TaskAccountTech account_name technology_name) (retries + 1)]
             else [])) =
           exception_records h2 @
             [(''scheduler-task-account-tech'', e), (''scheduler-exception-on-watch'', e)]"
  using assms
  by (simp add: task_account_tech_def reporter_logic_def bind_p_def lift_def try_except_p_def
        bind_def session_remove_def store_exception_def emit_def raise_def any_exception_def
        capture_def return_def retry_def max_retries_def)

theorem watch_fault_recorded_twice_witness:
  "watch_and_alert slurp_fault_env ''prod'' ''iamrole''
     [FindModules ''alerters'', FindModules ''watchers'', FindModules ''auditors''] =
     Some (Inl OperationalError,
       [FindModules ''alerters'', FindModules ''watchers'', FindModules ''auditors'',
        GetMonitors ''prod'' [''iamrole''] True, Slurp ''iamrole'']) \<and>
   task_account_tech slurp_fault_env 0 ''prod'' ''iamrole'' [] =
     Some (Inl Retry,
       [FindModules ''alerters'', FindModules ''watchers'', FindModules ''auditors'',
        GetMonitors ''prod'' [''iamrole''] True, Slurp ''iamrole'',
        SessionRemove, StoreException ''scheduler-task-account-tech'' OperationalError,
        StoreException ''scheduler-exception-on-watch'' OperationalError,
        RetrySent (TaskAccountTech ''prod'' ''iamrole'') 1]) \<and>
   exception_records
       [FindModules ''alerters'', FindModules ''watchers'', FindModules ''auditors'',
        GetMonitors ''prod'' [''iamrole''] True, Slurp ''iamrole'',
        SessionRemove, StoreException ''scheduler-task-account-tech'' OperationalError,
        StoreException ''scheduler-exception-on-watch'' OperationalError,
        RetrySent (TaskAccountTech ''prod'' ''iamrole'') 1] =
     [(''scheduler-task-account-tech'', OperationalError),
      (''scheduler-exception-on-watch'', OperationalError)]"
proof -
  let ?h1 = "[FindModules ''alerters'', FindModules ''watchers'', FindModules ''auditors'']"
  let ?h2 = "?h1 @ [GetMonitors ''prod'' [''iamrole''] True, Slurp ''iamrole'']"
  have a: "setup_modules slurp_fault_env [] = (Inr (), ?h1)"
    by (simp add: setup_modules_def io_defs)
  have b: "watch_and_alert slurp_fault_env ''prod'' ''iamrole'' ?h1 = Some (Inl OperationalError, ?h2)"
    by code_simp
  have c: "db_error OperationalError"
    by (simp add: db_error_def)
  have d: "\<not> sentry slurp_fault_env"
    by (simp add: slurp_fault_defs)
  from watch_fault_recorded_twice [OF a b c, of 0] b d
  show ?thesis by simp
qed

text \<open>
  Claim C2, as amended. When \<^verbatim>\<open>reporter_logic\<close> raises, the task stores the exception
  under \<open>scheduler-exception-on-watch\<close> and calls \<^verbatim>\<open>retry\<close>: while fewer than three
  retries have been made the task is sent again and the run ends with \<^verbatim>\<open>Retry\<close>;
  in the run with retry counter 3 the exception is raised instead. A delivery of the
  task therefore runs it at most four times, the first run and three retries, and it
  returns whenever each run does.
\<close>

theorem task_account_tech_retry_bound:
  "(setup_modules env h = (Inr (), h1) \<longrightarrow>
    reporter_logic env account_name technology_name h1 = Some (Inl e, h2) \<longrightarrow>
      task_account_tech env k account_name technology_name h =
        Some (Inl (if k < 3 then Retry else e),
              h2 @ (if sentry env then [SentryCapture] else []) @
              [StoreException ''scheduler-exception-on-watch'' e] @
              (if k < 3 then [RetrySent (TaskAccountTech account_name technology_name) (k + 1)]
               else []))) \<and>
   (deliver_account_tech env account_name technology_name 0 h = Some (r, h') \<longrightarrow>
      executions (TaskAccountTech account_name technology_name) h' \<le>
        executions (TaskAccountTech account_name technology_name) h + 4) \<and>
   ((\<forall>k' h0. task_account_tech env k' account_name technology_name h0 \<noteq> None) \<longrightarrow>
      deliver_account_tech env account_name technology_name 0 h \<noteq> None)"
proof (intro conjI impI)
  assume "setup_modules env h = (Inr (), h1)"
    and "reporter_logic env account_name technology_name h1 = Some (Inl e, h2)"
  then show "task_account_tech env k account_name technology_name h =
        Some (Inl (if k < 3 then Retry else e),
              h2 @ (if sentry env then [SentryCapture] else []) @
              [StoreException ''scheduler-exception-on-watch'' e] @
              (if k < 3 then [RetrySent (TaskAccountTech account_name technology_name) (k + 1)]
               else []))"
    by (rule task_account_tech_failure)
next
  assume "deliver_account_tech env account_name technology_name 0 h = Some (r, h')"
  from deliver_account_tech_bounded [OF this]
  show "executions (TaskAccountTech account_name technology_name) h' \<le>
        executions (TaskAccountTech account_name technology_name) h + 4" by simp
next
  assume "\<forall>k' h0. task_account_tech env k' account_name technology_name h0 \<noteq> None"
  then have "\<exists>r h'. deliver_account_tech env account_name technology_name 0 h = Some (r, h')"
    by (intro deliver_account_tech_returns) simp
  then show "deliver_account_tech env account_name technology_name 0 h \<noteq> None" by auto
qed

theorem task_account_tech_retry_bound_witness:
  "reporter_logic slurp_fault_env ''prod'' ''iamrole''
     [FindModules ''alerters'', FindModules ''watchers'', FindModules ''auditors''] =
     Some (Inl OperationalError,
       [FindModules ''alerters'', FindModules ''watchers'', FindModules ''auditors'',
        GetMonitors ''prod'' [''iamrole''] True, Slurp ''iamrole'', SessionRemove,
        StoreException ''scheduler-task-account-tech'' OperationalError]) \<and>
   task_account_tech slurp_fault_env 3 ''prod'' ''iamrole'' [] =
     Some (Inl OperationalError,
       [FindModules ''alerters'', FindModules ''watchers'', FindModules ''auditors'',
        GetMonitors ''prod'' [''iamrole''] True, Slurp ''iamrole'', SessionRemove,
        StoreException ''scheduler-task-account-tech'' OperationalError,
        StoreException ''scheduler-exception-on-watch'' OperationalError]) \<and>
   attempts_made (TaskAccountTech ''prod'' ''iamrole'')
     (deliver_account_tech slurp_fault_env ''prod'' ''iamrole'' 0 []) = Some 4 \<and>
   deliver_account_tech slurp_fault_env ''prod'' ''iamrole'' 0 [] \<noteq> None"
proof -
  let ?h1 = "[FindModules ''alerters'', FindModules ''watchers'', FindModules ''auditors'']"
  let ?h2 = "?h1 @ [GetMonitors ''prod'' [''iamrole''] True, Slurp ''iamrole'', SessionRemove,
        StoreException ''scheduler-task-account-tech'' OperationalError]"
  have s: "setup_modules slurp_fault_env [] = (Inr (), ?h1)"
    by (simp add: setup_modules_def io_defs)
  have b: "reporter_logic slurp_fault_env ''prod'' ''iamrole'' ?h1 = Some (Inl OperationalError, ?h2)"
    by (simp add: reporter_logic_def watch_and_alert_def find_changes_def watch_one_def
          slurp_fault_defs io_defs)
  have n: "attempts_made (TaskAccountTech ''prod'' ''iamrole'')
     (deliver_account_tech slurp_fault_env ''prod'' ''iamrole'' 0 []) = Some 4"
    by code_simp
  then obtain r h' where
    d: "deliver_account_tech slurp_fault_env ''prod'' ''iamrole'' 0 [] = Some (r, h')"
    by (auto simp: attempts_made_def)
  have t: "\<forall>k' h0. task_account_tech slurp_fault_env k' ''prod'' ''iamrole'' h0 \<noteq> None"
    by (simp add: slurp_fault_attempt)
  from task_account_tech_retry_bound
    [of slurp_fault_env "[]" ?h1 "''prod''" "''iamrole''" OperationalError ?h2 3 r h']
    s b d t n
  show ?thesis by (simp add: slurp_fault_defs)
qed

text \<open>
  The claim as stated fails: when every page fetch raises, the task runs four times,
  not three.
\<close>

theorem task_account_tech_retry_bound_counterexample:
  "attempts_made (TaskAccountTech ''prod'' ''iamrole'')
     (deliver_account_tech slurp_fault_env ''prod'' ''iamrole'' 0 []) = Some 4"
  by code_simp

text \<open>
  Claim C8, as amended. When the sweep raises in the audit-only task, the task stores
  the exception under \<open>scheduler-exception-on-audit\<close> and calls \<^verbatim>\<open>retry\<close>, which ends
  the run by an exception although the source has no \<^verbatim>\<open>raise\<close> before it: the task is
  sent again while fewer than three retries have been made. The bound is that of the
  account/technology task: every delivery returns after at most four runs.
\<close>

theorem task_audit_retry_bound:
  "(setup_modules env h = (Inr (), h1) \<longrightarrow>
    audit_changes env [account_name] [technology_name] True True True h1 = (Inl e, h2) \<longrightarrow>
      task_audit env k account_name technology_name h =
        (Inl (if k < 3 then Retry else e),
         h2 @ (if sentry env then [SentryCapture] else []) @
         [StoreException ''scheduler-exception-on-audit'' e] @
         (if k < 3 then [RetrySent (TaskAudit account_name technology_name) (k + 1)]
          else []))) \<and>
   (\<exists>r h'. deliver_audit env account_name technology_name 0 h = Some (r, h') \<and>
      executions (TaskAudit account_name technology_name) h' \<le>
        executions (TaskAudit account_name technology_name) h + 4)"
proof (intro conjI impI)
  assume "setup_modules env h = (Inr (), h1)"
    and "audit_changes env [account_name] [technology_name] True True True h1 = (Inl e, h2)"
  then show "task_audit env k account_name technology_name h =
        (Inl (if k < 3 then Retry else e),
         h2 @ (if sentry env then [SentryCapture] else []) @
         [StoreException ''scheduler-exception-on-audit'' e] @
         (if k < 3 then [RetrySent (TaskAudit account_name technology_name) (k + 1)]
          else []))"
    by (rule task_audit_failure)
next
  from deliver_audit_bounded [of env account_name technology_name 0 h]
  show "\<exists>r h'. deliver_audit env account_name technology_name 0 h = Some (r, h') \<and>
      executions (TaskAudit account_name technology_name) h' \<le>
        executions (TaskAudit account_name technology_name) h + 4" by simp
qed

theorem task_audit_retry_bound_witness:
  "audit_changes resolver_fault_env [''prod''] [''iamrole''] True True True
     [FindModules ''alerters'', FindModules ''watchers'', FindModules ''auditors''] =
     (Inl (OtherException ''KeyError''),
      [FindModules ''alerters'', FindModules ''watchers'', FindModules ''auditors'',
       GetMonitorsAndDependencies ''prod'' [''iamrole''] True]) \<and>
   task_audit resolver_fault_env 0 ''prod'' ''iamrole'' [] =
     (Inl Retry,
      [FindModules ''alerters'', FindModules ''watchers'', FindModules ''auditors'',
       GetMonitorsAndDependencies ''prod'' [''iamrole''] True,
       StoreException ''scheduler-exception-on-audit'' (OtherException ''KeyError''),
       RetrySent (TaskAudit ''prod'' ''iamrole'') 1])"
proof -
  let ?h1 = "[FindModules ''alerters'', FindModules ''watchers'', FindModules ''auditors'']"
  let ?h2 = "?h1 @ [GetMonitorsAndDependencies ''prod'' [''iamrole''] True]"
  have s: "setup_modules resolver_fault_env [] = (Inr (), ?h1)"
    by (simp add: setup_modules_def io_defs)
  have b: "audit_changes resolver_fault_env [''prod''] [''iamrole''] True True True ?h1 =
             (Inl (OtherException ''KeyError''), ?h2)"
    by (simp add: resolver_fault_defs io_defs)
  from task_audit_retry_bound
    [of resolver_fault_env "[]" ?h1 "''prod''" "''iamrole''" "OtherException ''KeyError''" ?h2 0]
    s b
  show ?thesis by (simp add: resolver_fault_defs)
qed

text \<open>
  The claim as stated fails: when the resolution of the monitors raises each time, the
  audit-only task runs four times, not three.
\<close>

theorem task_audit_retry_bound_counterexample:
  "attempts_made (TaskAudit ''prod'' ''iamrole'')
     (deliver_audit resolver_fault_env ''prod'' ''iamrole'' 0 []) = Some 4"
  by code_simp

subsection \<open>The scheduler bootstrapper\<close>

lemma schedule_monitor_return:
  "schedule_monitor env acct mon h = (Inr u, h') \<Longrightarrow> h' = h @ monitor_tasks acct mon"
  by (auto simp: schedule_monitor_def monitor_tasks_def bind_def call_def return_def Let_def
        split: option.splits if_splits)

lemma schedule_monitors_return:
  "schedule_monitors env acct mons h = (Inr u, h') \<Longrightarrow>
     h' = h @ concat (map (monitor_tasks acct) mons)"
proof (induction mons arbitrary: h)
  case Nil
  then show ?case by (simp add: return_def)
next
  case (Cons mon mons)
  obtain r1 h1 where s: "schedule_monitor env acct mon h = (r1, h1)"
    by (cases "schedule_monitor env acct mon h")
  with Cons.prems obtain u1 where r1: "r1 = Inr u1" and
    rest: "schedule_monitors env acct mons h1 = (Inr u, h')"
    by (cases r1) (auto simp: bind_def)
  from schedule_monitor_return s r1 have "h1 = h @ monitor_tasks acct mon" by blast
  with Cons.IH [OF rest] show ?case by simp
qed

lemma schedule_accounts_return:
  "schedule_accounts env accts h = (Inr u, h') \<Longrightarrow>
     h' = h @ concat (map (account_tasks env) accts)"
proof (induction accts arbitrary: h)
  case Nil
  then show ?case by (simp add: return_def)
next
  case (Cons acct accts)
  let ?h0 = "h @ [NewReporter (name acct)]"
  from Cons.prems have nr: "raises env h (NewReporter (name acct)) = None"
    by (auto simp: bind_def call_def split: option.splits)
  obtain r1 h1 where s: "schedule_monitors env acct (all_monitors env (name acct)) ?h0 = (r1, h1)"
    by (cases "schedule_monitors env acct (all_monitors env (name acct)) ?h0")
  with Cons.prems nr obtain u1 where r1: "r1 = Inr u1" and
    rest: "schedule_accounts env accts h1 = (Inr u, h')"
    by (cases r1) (auto simp: bind_def call_def)
  from schedule_monitors_return s r1
  have "h1 = ?h0 @ concat (map (monitor_tasks acct) (all_monitors env (name acct)))" by blast
  with Cons.IH [OF rest] show ?case by (simp add: account_tasks_def)
qed

lemma emits_schedule_monitors: "emits (\<lambda>_. True) (schedule_monitors env acct mons)"
  by (induction mons)
     (auto intro!: emits_intros simp: schedule_monitor_def Let_def split: option.split)

lemma emits_schedule_accounts: "emits (\<lambda>_. True) (schedule_accounts env accts)"
  by (induction accts) (auto intro!: emits_intros emits_schedule_monitors)

lemma emits_register_all: "emits (\<lambda>_. True) (register_all env)"
  unfolding register_all_def by (auto intro!: emits_intros emits_schedule_accounts)

lemma register_all_return:
  assumes "register_all env h = (Inr u, h')"
  shows "h' = h @ QueryAccounts # concat (map (account_tasks env) (scheduled_accounts env)) @
              [AddPeriodicTask (Crontab ''0'' ''3'' ''*'') ClearExpiredExceptions]"
proof -
  let ?h0 = "h @ [QueryAccounts]"
  from assms have q: "raises env h QueryAccounts = None"
    by (auto simp: register_all_def bind_def call_def split: option.splits)
  obtain r1 h1 where s: "schedule_accounts env (scheduled_accounts env) ?h0 = (r1, h1)"
    by (cases "schedule_accounts env (scheduled_accounts env) ?h0")
  with assms q obtain u1 where r1: "r1 = Inr u1" and
    last: "call env (AddPeriodicTask (Crontab ''0'' ''3'' ''*'') ClearExpiredExceptions) () h1
             = (Inr u, h')"
    by (cases r1) (auto simp: register_all_def bind_def call_def)
  from schedule_accounts_return s r1
  have "h1 = ?h0 @ concat (map (account_tasks env) (scheduled_accounts env))" by blast
  moreover from last
  have "h' = h1 @ [AddPeriodicTask (Crontab ''0'' ''3'' ''*'') ClearExpiredExceptions]"
    by (auto simp: call_def split: option.splits)
  ultimately show ?thesis by simp
qed

lemma setup_the_tasks_completed:
  assumes run: "setup_the_tasks env h = (Inr (), h')"
    and ok: "\<forall>e. StoreException ''scheduler'' e \<notin> set (drop (length h) h')"
  shows "h' = h @ [FindModules ''alerters'', FindModules ''watchers'', FindModules ''auditors'',
                   Purge, QueryAccounts] @
              concat (map (account_tasks env) (scheduled_accounts env)) @
              [AddPeriodicTask (Crontab ''0'' ''3'' ''*'') ClearExpiredExceptions]"
proof -
  let ?hp = "h @ [FindModules ''alerters'', FindModules ''watchers'', FindModules ''auditors'',
                  Purge]"
  let ?handler = "\<lambda>e. bind (capture env) (\<lambda>_. store_exception ''scheduler'' e)"
  have unfold: "setup_the_tasks env h =
      (case raises env (h @ [FindModules ''alerters'', FindModules ''watchers'',
                             FindModules ''auditors'']) Purge of
         Some e \<Rightarrow> (Inl e, ?hp)
       | None \<Rightarrow> try_except (register_all env) any_exception ?handler ?hp)"
    by (simp add: setup_the_tasks_def register_all_def setup_modules_def purge_it_def bind_def
          emit_def call_def split: option.splits)
  with run have tr: "try_except (register_all env) any_exception ?handler ?hp = (Inr (), h')"
    by (simp split: option.splits)
  obtain r b where body: "register_all env ?hp = (r, b)"
    by (cases "register_all env ?hp")
  from emitsD [OF emits_register_all body] obtain new where new: "b = ?hp @ new" by blast
  show ?thesis
  proof (cases r)
    case (Inr u)
    with tr body have "h' = b" by (simp add: try_except_def)
    with register_all_return body Inr show ?thesis by fastforce
  next
    case (Inl e)
    with tr body have "h' = b @ (if sentry env then [SentryCapture] else []) @
                         [StoreException ''scheduler'' e]"
      by (auto simp: try_except_def any_exception_def bind_def capture_def store_exception_def
            emit_def return_def)
    with new have "StoreException ''scheduler'' e \<in> set (drop (length h) h')" by simp
    with ok show ?thesis by blast
  qed
qed

lemma registration_monitor_tasks:
  "filter (registration_for a t) (monitor_tasks acct mon) =
     (if name acct = a \<and> (\<exists>w. watcher mon = Some w \<and> index w = t)
      then monitor_tasks acct mon else [])"
  by (auto simp: monitor_tasks_def split: option.splits)

lemma registration_other_monitors:
  "\<forall>m \<in> set mons. \<forall>w. watcher m = Some w \<longrightarrow> index w \<noteq> t \<Longrightarrow>
     filter (registration_for a t) (concat (map (monitor_tasks acct) mons)) = []"
  by (induction mons) (auto simp: registration_monitor_tasks)

lemma registration_other_account:
  "name acct \<noteq> a \<Longrightarrow> filter (registration_for a t) (account_tasks env acct) = []"
proof -
  assume n: "name acct \<noteq> a"
  have "filter (registration_for a t) (concat (map (monitor_tasks acct) mons)) = []" for mons
    using n by (induction mons) (auto simp: registration_monitor_tasks)
  then show ?thesis by (simp add: account_tasks_def)
qed

lemma index_of_watched:
  "m \<in> set mons \<Longrightarrow> watcher m = Some w \<Longrightarrow> index w \<in> set (map index (List.map_filter watcher mons))"
  by (force simp: List.map_filter_def)

lemma registration_monitors:
  assumes "distinct (map index (List.map_filter watcher mons))"
    and "mon \<in> set mons" and "watcher mon = Some w"
  shows "filter (registration_for (name acct) (index w)) (concat (map (monitor_tasks acct) mons)) =
           monitor_tasks acct mon"
  using assms
proof (induction mons)
  case Nil
  then show ?case by simp
next
  case (Cons m mons)
  show ?case
  proof (cases "watcher m")
    case None
    with Cons have "mon \<in> set mons" "distinct (map index (List.map_filter watcher mons))"
      by (auto simp: List.map_filter_simps)
    with Cons None show ?thesis by (simp add: registration_monitor_tasks)
  next
    case (Some w')
    with Cons.prems have d: "index w' \<notin> set (map index (List.map_filter watcher mons))"
      "distinct (map index (List.map_filter watcher mons))"
      by (auto simp: List.map_filter_simps)
    show ?thesis
    proof (cases "index w' = index w")
      case True
      with d(1) have "\<forall>m' \<in> set mons. \<forall>v. watcher m' = Some v \<longrightarrow> index v \<noteq> index w"
        using index_of_watched by fastforce
      from registration_other_monitors [OF this]
      have rest: "filter (registration_for (name acct) (index w))
                    (concat (map (monitor_tasks acct) mons)) = []" .
      from True d(1) Cons.prems(2,3) have "mon = m"
        using index_of_watched by fastforce
      with rest Cons.prems(3) show ?thesis by (simp add: registration_monitor_tasks)
    next
      case False
      with Some Cons.prems have "mon \<in> set mons" by auto
      with Cons.IH d(2) Cons.prems(3) False Some show ?thesis
        by (simp add: registration_monitor_tasks)
    qed
  qed
qed

lemma registration_accounts:
  assumes "distinct (map name accts)" and "acct \<in> set accts"
    and "distinct (map index (List.map_filter watcher (all_monitors env (name acct))))"
    and "mon \<in> set (all_monitors env (name acct))" and "watcher mon = Some w"
  shows "filter (registration_for (name acct) (index w))
           (concat (map (account_tasks env) accts)) = monitor_tasks acct mon"
  using assms(1,2)
proof (induction accts)
  case Nil
  then show ?case by simp
next
  case (Cons a accts)
  have own: "filter (registration_for (name acct) (index w)) (account_tasks env acct) =
               monitor_tasks acct mon"
    using registration_monitors [OF assms(3,4,5)] by (simp add: account_tasks_def)
  show ?case
  proof (cases "a = acct")
    case True
    with Cons.prems have "name acct \<notin> name ` set accts" by simp
    then have "\<forall>b \<in> set accts. name b \<noteq> name acct" by (metis imageI)
    then have "filter (registration_for (name acct) (index w))
                 (concat (map (account_tasks env) accts)) = []"
      by (induction accts) (auto simp: registration_other_account)
    with True own show ?thesis by simp
  next
    case False
    with Cons.prems have "acct \<in> set accts" "name a \<noteq> name acct" "distinct (map name accts)"
      by auto
    with Cons.IH show ?thesis by (simp add: registration_other_account)
  qed
qed

lemma schedule_monitor_any:
  "schedule_monitor env acct mon h = (r, h') \<Longrightarrow>
     \<exists>new. h' = h @ new \<and> prefix new (monitor_tasks acct mon)"
  by (auto simp: schedule_monitor_def monitor_tasks_def bind_def call_def return_def Let_def
        split: option.splits if_splits)

lemma schedule_monitors_any:
  "schedule_monitors env acct mons h = (r, h') \<Longrightarrow>
     \<exists>new. h' = h @ new \<and> prefix new (concat (map (monitor_tasks acct) mons))"
proof (induction mons arbitrary: h)
  case Nil
  then show ?case by (simp add: return_def)
next
  case (Cons mon mons)
  obtain r1 h1 where s: "schedule_monitor env acct mon h = (r1, h1)"
    by (cases "schedule_monitor env acct mon h")
  show ?case
  proof (cases r1)
    case (Inl e)
    with s Cons.prems have "h' = h1" by (simp add: bind_def)
    with schedule_monitor_any [OF s] show ?thesis by auto
  next
    case (Inr u)
    with s Cons.prems have rest: "schedule_monitors env acct mons h1 = (r, h')"
      by (simp add: bind_def)
    from schedule_monitor_return s Inr have "h1 = h @ monitor_tasks acct mon" by blast
    with Cons.IH [OF rest] show ?thesis by auto
  qed
qed

lemma schedule_accounts_any:
  "schedule_accounts env accts h = (r, h') \<Longrightarrow>
     \<exists>new. h' = h @ new \<and> prefix new (concat (map (account_tasks env) accts))"
proof (induction accts arbitrary: h)
  case Nil
  then show ?case by (simp add: return_def)
next
  case (Cons acct accts)
  let ?h0 = "h @ [NewReporter (name acct)]"
  show ?case
  proof (cases "raises env h (NewReporter (name acct))")
    case (Some e)
    with Cons.prems have "h' = ?h0" by (simp add: bind_def call_def)
    then show ?thesis by (simp add: account_tasks_def)
  next
    case None
    obtain r1 h1 where
      s: "schedule_monitors env acct (all_monitors env (name acct)) ?h0 = (r1, h1)"
      by (cases "schedule_monitors env acct (all_monitors env (name acct)) ?h0")
    show ?thesis
    proof (cases r1)
      case (Inl e)
      with s None Cons.prems have "h' = h1" by (simp add: bind_def call_def)
      with schedule_monitors_any [OF s] show ?thesis by (auto simp: account_tasks_def)
    next
      case (Inr u)
      with s None Cons.prems have rest: "schedule_accounts env accts h1 = (r, h')"
        by (simp add: bind_def call_def)
      from schedule_monitors_return s Inr
      have "h1 = ?h0 @ concat (map (monitor_tasks acct) (all_monitors env (name acct)))"
        by blast
      with Cons.IH [OF rest] show ?thesis by (auto simp: account_tasks_def)
    qed
  qed
qed

lemma register_all_any:
  assumes "register_all env h = (r, h')"
  shows "\<exists>new. h' = h @ new \<and>
           prefix new (QueryAccounts # concat (map (account_tasks env) (scheduled_accounts env)) @
                       [AddPeriodicTask (Crontab ''0'' ''3'' ''*'') ClearExpiredExceptions])"
proof (cases "raises env h QueryAccounts")
  case (Some e)
  with assms have "h' = h @ [QueryAccounts]" by (simp add: register_all_def bind_def call_def)
  then show ?thesis by simp
next
  case None
  let ?h0 = "h @ [QueryAccounts]"
  obtain r1 h1 where s: "schedule_accounts env (scheduled_accounts env) ?h0 = (r1, h1)"
    by (cases "schedule_accounts env (scheduled_accounts env) ?h0")
  show ?thesis
  proof (cases r1)
    case (Inl e)
    with s None assms have "h' = h1" by (simp add: register_all_def bind_def call_def)
    with schedule_accounts_any [OF s] show ?thesis by auto
  next
    case (Inr u)
    from schedule_accounts_return s Inr
    have h1: "h1 = ?h0 @ concat (map (account_tasks env) (scheduled_accounts env))" by blast
    from Inr s None assms
    have "h' = h1 @ [AddPeriodicTask (Crontab ''0'' ''3'' ''*'') ClearExpiredExceptions]"
      by (auto simp: register_all_def bind_def call_def split: option.splits)
    with h1 show ?thesis by simp
  qed
qed

lemma setup_the_tasks_any:
  assumes "setup_the_tasks env h = (r, h')"
  shows "\<exists>new tail. h' = h @ new @ tail \<and>
           prefix new
             ([FindModules ''alerters'', FindModules ''watchers'', FindModules ''auditors'',
               Purge, QueryAccounts] @
              concat (map (account_tasks env) (scheduled_accounts env)) @
              [AddPeriodicTask (Crontab ''0'' ''3'' ''*'') ClearExpiredExceptions]) \<and>
           list_all (\<lambda>ev. ev = SentryCapture \<or> (\<exists>e. ev = StoreException ''scheduler'' e)) tail"
proof -
  let ?hm = "h @ [FindModules ''alerters'', FindModules ''watchers'', FindModules ''auditors'']"
  let ?hp = "?hm @ [Purge]"
  let ?handler = "\<lambda>e. bind (capture env) (\<lambda>_. store_exception ''scheduler'' e)"
  show ?thesis
  proof (cases "raises env ?hm Purge")
    case (Some e)
    with assms have "h' = ?hp"
      by (simp add: setup_the_tasks_def setup_modules_def purge_it_def bind_def emit_def call_def)
    then have "h' = h @ [FindModules ''alerters'', FindModules ''watchers'',
                         FindModules ''auditors'', Purge] @ []" by simp
    then show ?thesis by (intro exI conjI) (assumption, simp_all)
  next
    case None
    with assms have tr: "try_except (register_all env) any_exception ?handler ?hp = (r, h')"
      by (simp add: setup_the_tasks_def setup_modules_def purge_it_def bind_def emit_def call_def)
    obtain r1 b where body: "register_all env ?hp = (r1, b)"
      by (cases "register_all env ?hp")
    from register_all_any [OF body] obtain n1 where
      n1: "b = ?hp @ n1"
        "prefix n1 (QueryAccounts # concat (map (account_tasks env) (scheduled_accounts env)) @
                    [AddPeriodicTask (Crontab ''0'' ''3'' ''*'') ClearExpiredExceptions])"
      by blast
    from n1(2) have pre: "prefix ([FindModules ''alerters'', FindModules ''watchers'',
         FindModules ''auditors'', Purge] @ n1)
        ([FindModules ''alerters'', FindModules ''watchers'', FindModules ''auditors'',
               Purge, QueryAccounts] @
              concat (map (account_tasks env) (scheduled_accounts env)) @
              [AddPeriodicTask (Crontab ''0'' ''3'' ''*'') ClearExpiredExceptions])"
      by simp
    have "\<exists>tail. h' = b @ tail \<and>
            list_all (\<lambda>ev. ev = SentryCapture \<or> (\<exists>e. ev = StoreException ''scheduler'' e)) tail"
      using tr body
      by (cases r1)
         (auto simp: try_except_def any_exception_def bind_def capture_def store_exception_def
            emit_def return_def split: if_splits)
    then obtain tail where tail: "h' = b @ tail"
      "list_all (\<lambda>ev. ev = SentryCapture \<or> (\<exists>e. ev = StoreException ''scheduler'' e)) tail"
      by blast
    from tail(1) n1(1)
    have "h' = h @ ([FindModules ''alerters'', FindModules ''watchers'',
         FindModules ''auditors'', Purge] @ n1) @ tail" by simp
    with pre tail(2) show ?thesis by blast
  qed
qed

lemma registration_tail:
  "list_all (\<lambda>ev. ev = SentryCapture \<or> (\<exists>e. ev = StoreException ''scheduler'' e)) tail \<Longrightarrow>
     filter (registration_for a t) tail = []"
  by (induction tail) auto

lemma registrations_any:
  assumes run: "setup_the_tasks env h = (r, h')"
    and names: "distinct (map name (scheduled_accounts env))"
    and acct: "acct \<in> set (account_table env)" "active acct" "\<not> third_party acct"
    and techs: "distinct (map index (List.map_filter watcher (all_monitors env (name acct))))"
    and mon: "mon \<in> set (all_monitors env (name acct))" "watcher mon = Some w"
  shows "prefix (filter (registration_for (name acct) (index w)) (drop (length h) h'))
           (monitor_tasks acct mon)"
proof -
  let ?full = "[FindModules ''alerters'', FindModules ''watchers'', FindModules ''auditors'',
               Purge, QueryAccounts] @
              concat (map (account_tasks env) (scheduled_accounts env)) @
              [AddPeriodicTask (Crontab ''0'' ''3'' ''*'') ClearExpiredExceptions]"
  from acct have "acct \<in> set (scheduled_accounts env)"
    by (simp add: scheduled_accounts_def)
  from registration_accounts [OF names this techs mon]
  have full: "filter (registration_for (name acct) (index w)) ?full = monitor_tasks acct mon"
    by simp
  from setup_the_tasks_any [OF run] obtain new tail where
    new: "h' = h @ new @ tail" "prefix new ?full"
      "list_all (\<lambda>ev. ev = SentryCapture \<or> (\<exists>e. ev = StoreException ''scheduler'' e)) tail"
    by blast
  from new(1) registration_tail [OF new(3)]
  have "filter (registration_for (name acct) (index w)) (drop (length h) h') =
          filter (registration_for (name acct) (index w)) new" by simp
  with filter_mono_prefix [OF new(2), of "registration_for (name acct) (index w)"] full
  show ?thesis by simp
qed

text \<open>
  Claim C1. Let account names, and the technologies of the monitors of an account, be
  pairwise distinct, so that a pair of account and technology names one monitor. When the
  bootstrapper completes without recording a scheduler exception, then for every active
  first-party account and every monitor of it that has a watcher, the registrations made
  for the pair are exactly: one immediate run of the account/technology task, one periodic
  run of it every \<open>get_interval * 60\<close> seconds, and the weekly audit-only run if and
  only if the monitor is not batch-supporting. When the pass is cut short by an
  exception, the registrations made for the pair are an initial part of these.
\<close>

theorem bootstrap_registrations:
  assumes names: "distinct (map name (scheduled_accounts env))"
    and acct: "acct \<in> set (account_table env)" "active acct" "\<not> third_party acct"
    and techs: "distinct (map index (List.map_filter watcher (all_monitors env (name acct))))"
    and mon: "mon \<in> set (all_monitors env (name acct))" "watcher mon = Some w"
  shows "(setup_the_tasks env h = (Inr (), h') \<longrightarrow>
          (\<forall>e. StoreException ''scheduler'' e \<notin> set (drop (length h) h')) \<longrightarrow>
            filter (registration_for (name acct) (index w)) (drop (length h) h') =
              [ApplyAsync (TaskAccountTech (name acct) (index w)),
               AddPeriodicTask (Every (get_interval w * 60))
                 (TaskAccountTech (name acct) (index w))] @
              (if batch_support mon then []
               else [AddPeriodicTask (Crontab ''*'' ''10'' ''mon-fri'')
                       (TaskAudit (name acct) (index w))])) \<and>
         (setup_the_tasks env h = (r, k) \<longrightarrow>
            prefix (filter (registration_for (name acct) (index w)) (drop (length h) k))
              ([ApplyAsync (TaskAccountTech (name acct) (index w)),
                AddPeriodicTask (Every (get_interval w * 60))
                  (TaskAccountTech (name acct) (index w))] @
               (if batch_support mon then []
                else [AddPeriodicTask (Crontab ''*'' ''10'' ''mon-fri'')
                        (TaskAudit (name acct) (index w))])))"
proof (intro conjI impI)
  assume run: "setup_the_tasks env h = (Inr (), h')"
    and ok: "\<forall>e. StoreException ''scheduler'' e \<notin> set (drop (length h) h')"
  from acct have "acct \<in> set (scheduled_accounts env)"
    by (simp add: scheduled_accounts_def)
  from registration_accounts [OF names this techs mon]
  have "filter (registration_for (name acct) (index w))
          (concat (map (account_tasks env) (scheduled_accounts env))) = monitor_tasks acct mon" .
  with setup_the_tasks_completed [OF run ok] mon(2)
  show "filter (registration_for (name acct) (index w)) (drop (length h) h') =
              [ApplyAsync (TaskAccountTech (name acct) (index w)),
               AddPeriodicTask (Every (get_interval w * 60))
                 (TaskAccountTech (name acct) (index w))] @
              (if batch_support mon then []
               else [AddPeriodicTask (Crontab ''*'' ''10'' ''mon-fri'')
                       (TaskAudit (name acct) (index w))])"
    by (simp add: monitor_tasks_def)
next
  assume run: "setup_the_tasks env h = (r, k)"
  from registrations_any [OF run names acct techs mon] mon(2)
  show "prefix (filter (registration_for (name acct) (index w)) (drop (length h) k))
              ([ApplyAsync (TaskAccountTech (name acct) (index w)),
                AddPeriodicTask (Every (get_interval w * 60))
                  (TaskAccountTech (name acct) (index w))] @
               (if batch_support mon then []
                else [AddPeriodicTask (Crontab ''*'' ''10'' ''mon-fri'')
                        (TaskAudit (name acct) (index w))]))"
    by (simp add: monitor_tasks_def)
qed

theorem bootstrap_registrations_witness:
  "setup_the_tasks prod_env [] =
     (Inr (),
      [FindModules ''alerters'', FindModules ''watchers'', FindModules ''auditors'', Purge,
       QueryAccounts, NewReporter ''prod'',
       ApplyAsync (TaskAccountTech ''prod'' ''iamrole''),
       AddPeriodicTask (Every 900) (TaskAccountTech ''prod'' ''iamrole''),
       AddPeriodicTask (Crontab ''*'' ''10'' ''mon-fri'') (TaskAudit ''prod'' ''iamrole''),
       ApplyAsync (TaskAccountTech ''prod'' ''s3''),
       AddPeriodicTask (Every 900) (TaskAccountTech ''prod'' ''s3''),
       AddPeriodicTask (Crontab ''0'' ''3'' ''*'') ClearExpiredExceptions]) \<and>
   filter (registration_for ''prod'' ''s3'') (snd (setup_the_tasks prod_env [])) =
     [ApplyAsync (TaskAccountTech ''prod'' ''s3''),
      AddPeriodicTask (Every 900) (TaskAccountTech ''prod'' ''s3'')]"
proof -
  let ?h = "[FindModules ''alerters'', FindModules ''watchers'', FindModules ''auditors'', Purge,
       QueryAccounts, NewReporter ''prod'',
       ApplyAsync (TaskAccountTech ''prod'' ''iamrole''),
       AddPeriodicTask (Every 900) (TaskAccountTech ''prod'' ''iamrole''),
       AddPeriodicTask (Crontab ''*'' ''10'' ''mon-fri'') (TaskAudit ''prod'' ''iamrole''),
       ApplyAsync (TaskAccountTech ''prod'' ''s3''),
       AddPeriodicTask (Every 900) (TaskAccountTech ''prod'' ''s3''),
       AddPeriodicTask (Crontab ''0'' ''3'' ''*'') ClearExpiredExceptions]"
  have run: "setup_the_tasks prod_env [] = (Inr (), ?h)"
    by code_simp
  have ok: "\<forall>e. StoreException ''scheduler'' e \<notin> set (drop (length []) ?h)"
    by simp
  have names: "distinct (map name (scheduled_accounts prod_env))"
    by (simp add: scheduled_accounts_def scenario_defs)
  have acct: "prod_account \<in> set (account_table prod_env)" "active prod_account"
    "\<not> third_party prod_account"
    by (simp_all add: scenario_defs)
  have techs: "distinct (map index (List.map_filter watcher (all_monitors prod_env (name prod_account))))"
    by (simp add: List.map_filter_simps scenario_defs)
  have mon: "s3_monitor \<in> set (all_monitors prod_env (name prod_account))"
    "watcher s3_monitor = Some s3_watcher"
    by (simp_all add: scenario_defs)
  from bootstrap_registrations [OF names acct techs mon, of "[]" ?h "Inr ()" ?h] run ok
  show ?thesis by (simp add: scenario_defs)
qed

end
